theory Spec2Isabelle
  imports
    Complex_Main
    "HOL-Library.List_Lexorder"
    "HOL-Library.Char_ord"
    "HOL-Library.Product_Lexorder"
    "HOL-Library.Sublist"
begin

section \<open>Conventions of the embedding\<close>

text \<open>
  The development verifies parts of the fantasy-league analysis repository: the domain
  model (\<^verbatim>\<open>src/models.py\<close>), the CSV storage layer (\<^verbatim>\<open>src/storage.py\<close>), the analytics
  engine (\<^verbatim>\<open>src/analytics.py\<close>), the owner-id generator (\<^verbatim>\<open>src/extractor.py\<close>) and
  four analysis scripts.

  \<^item> Python \<^verbatim>\<open>int\<close> is \<^typ>\<open>int\<close>; Python \<^verbatim>\<open>float\<close> is \<^typ>\<open>real\<close>, so arithmetic is
    exact and rounding error of IEEE doubles is outside the model. A NaN produced by numpy
    is the value \<open>None\<close> of \<^typ>\<open>real option\<close>.
  \<^item> Python \<^verbatim>\<open>str\<close> is \<^typ>\<open>string\<close>; a character is an 8-bit code point.
  \<^item> \<^verbatim>\<open>Optional[T]\<close> is \<^typ>\<open>'a option\<close>.
  \<^item> A raised exception is the left injection of a sum type.
  \<^item> Where two dataclasses share a field name, the later record carries a short prefix
    (\<open>team_\<close>, \<open>sr_\<close>, \<open>roster_\<close>), since record fields share one name space here.
\<close>

datatype py_error =
    RuntimeError | ValueError | KeyError | EmptyDataError | IllTyped | OSError
  | ZeroDivisionError

definition bind :: "py_error + 'a \<Rightarrow> ('a \<Rightarrow> py_error + 'b) \<Rightarrow> py_error + 'b" where
  "bind r f = (case r of Inl e \<Rightarrow> Inl e | Inr v \<Rightarrow> f v)"

fun map_err :: "('a \<Rightarrow> py_error + 'b) \<Rightarrow> 'a list \<Rightarrow> py_error + 'b list" where
  "map_err f [] = Inr []"
| "map_err f (x # xs) = bind (f x) (\<lambda>y. bind (map_err f xs) (\<lambda>ys. Inr (y # ys)))"

text \<open>Truthiness of an optional string, as Python's \<^verbatim>\<open>not x\<close> and \<^verbatim>\<open>x or ''\<close> use it.\<close>

definition truthy :: "string option \<Rightarrow> bool" where
  "truthy v = (case v of None \<Rightarrow> False | Some s \<Rightarrow> s \<noteq> [])"

section \<open>Domain model (models.py)\<close>

record Owner =
  owner_id :: string
  name :: string
  email :: "string option"

record Team =
  team_id :: string
  team_owner_id :: string
  team_name :: string
  team_season :: int
  division :: "string option"

record Matchup =
  matchup_id :: string
  season :: int
  week :: int
  team1_owner_id :: string
  team2_owner_id :: string
  team1_score :: real
  team2_score :: real
  winner_owner_id :: "string option"
  playoff :: bool

text \<open>The roster's player list is only passed to \<^verbatim>\<open>json.dumps\<close>; its type is a parameter.\<close>

record 'p Roster =
  roster_id :: string
  roster_owner_id :: string
  roster_season :: int
  roster_week :: int
  players :: 'p

record SeasonRecord =
  sr_owner_id :: string
  sr_season :: int
  sr_wins :: int
  sr_losses :: int
  sr_ties :: int
  sr_points_for :: real
  sr_points_against :: real
  final_rank :: int
  playoff_seed :: "int option"

record HeadToHeadRecord =
  owner1_id :: string
  owner2_id :: string
  owner1_wins :: int
  owner2_wins :: int
  owner1_points :: real
  owner2_points :: real
  total_games :: int

section \<open>CSV storage (storage.py)\<close>

text \<open>
  A CSV file is the list of rows handed to \<^verbatim>\<open>writer.writerow\<close>, header first. A cell keeps
  the value that was written together with the type pandas infers for it when the file is
  read back; the empty string and \<^verbatim>\<open>None\<close> are both written as the empty cell, which
  pandas reads as NaN. The model takes the CSV layer to return every non-empty cell as it
  was written: pandas' reinterpretation of text that looks like a number or like one of its
  NA markers is not modelled.
\<close>

datatype cell = Empty | Text string | IntCell int | FloatCell real | BoolCell bool

type_synonym csv_file = "cell list list"

definition str_cell :: "string \<Rightarrow> cell" where
  "str_cell s = (if s = [] then Empty else Text s)"

text \<open>\<^verbatim>\<open>x or ''\<close> for an optional string and for an optional integer.\<close>

definition str_or_empty :: "string option \<Rightarrow> cell" where
  "str_or_empty v = (if truthy v then str_cell (case v of Some s \<Rightarrow> s | None \<Rightarrow> []) else Empty)"

definition int_or_empty :: "int option \<Rightarrow> cell" where
  "int_or_empty v = (case v of None \<Rightarrow> Empty | Some n \<Rightarrow> if n = 0 then Empty else IntCell n)"

record storage =
  owners_csv :: "csv_file option"
  teams_csv :: "csv_file option"
  matchups_csv :: "csv_file option"
  season_records_csv :: "csv_file option"
  rosters_csv :: "csv_file option"
  head_to_head_csv :: "csv_file option"

definition owners_header :: "cell list" where
  "owners_header = map str_cell [''owner_id'', ''name'', ''email'']"

definition owner_row :: "Owner \<Rightarrow> cell list" where
  "owner_row owner = [str_cell (owner_id owner), str_cell (name owner), str_or_empty (email owner)]"

definition save_owners :: "Owner list \<Rightarrow> storage \<Rightarrow> storage" where
  "save_owners owners st =
     (if owners = [] then st
      else st\<lparr>owners_csv := Some (owners_header # map owner_row owners)\<rparr>)"

definition teams_header :: "cell list" where
  "teams_header = map str_cell [''team_id'', ''owner_id'', ''team_name'', ''season'', ''division'']"

definition team_row :: "Team \<Rightarrow> cell list" where
  "team_row team =
     [str_cell (team_id team), str_cell (team_owner_id team), str_cell (team_name team),
      IntCell (team_season team), str_or_empty (division team)]"

definition save_teams :: "Team list \<Rightarrow> storage \<Rightarrow> storage" where
  "save_teams teams st =
     (if teams = [] then st
      else st\<lparr>teams_csv := Some (teams_header # map team_row teams)\<rparr>)"

definition matchups_header :: "cell list" where
  "matchups_header = map str_cell
     [''matchup_id'', ''season'', ''week'', ''team1_owner_id'', ''team2_owner_id'',
      ''team1_score'', ''team2_score'', ''winner_owner_id'', ''playoff'']"

definition matchup_row :: "Matchup \<Rightarrow> cell list" where
  "matchup_row matchup =
     [str_cell (matchup_id matchup), IntCell (season matchup), IntCell (week matchup),
      str_cell (team1_owner_id matchup), str_cell (team2_owner_id matchup),
      FloatCell (team1_score matchup), FloatCell (team2_score matchup),
      str_or_empty (winner_owner_id matchup), BoolCell (playoff matchup)]"

definition save_matchups :: "Matchup list \<Rightarrow> storage \<Rightarrow> storage" where
  "save_matchups matchups st =
     (if matchups = [] then st
      else st\<lparr>matchups_csv := Some (matchups_header # map matchup_row matchups)\<rparr>)"

definition season_records_header :: "cell list" where
  "season_records_header = map str_cell
     [''owner_id'', ''season'', ''wins'', ''losses'', ''ties'',
      ''points_for'', ''points_against'', ''final_rank'', ''playoff_seed'']"

definition season_record_row :: "SeasonRecord \<Rightarrow> cell list" where
  "season_record_row record =
     [str_cell (sr_owner_id record), IntCell (sr_season record), IntCell (sr_wins record),
      IntCell (sr_losses record), IntCell (sr_ties record),
      FloatCell (sr_points_for record), FloatCell (sr_points_against record),
      IntCell (final_rank record), int_or_empty (playoff_seed record)]"

definition save_season_records :: "SeasonRecord list \<Rightarrow> storage \<Rightarrow> storage" where
  "save_season_records records st =
     (if records = [] then st
      else st\<lparr>season_records_csv := Some (season_records_header # map season_record_row records)\<rparr>)"

definition rosters_header :: "cell list" where
  "rosters_header = map str_cell [''roster_id'', ''owner_id'', ''season'', ''week'', ''players_json'']"

definition roster_row :: "('p \<Rightarrow> string) \<Rightarrow> 'p Roster \<Rightarrow> cell list" where
  "roster_row json_dumps roster =
     [str_cell (roster_id roster), str_cell (roster_owner_id roster),
      IntCell (roster_season roster), IntCell (roster_week roster),
      str_cell (json_dumps (players roster))]"

definition save_rosters :: "('p \<Rightarrow> string) \<Rightarrow> 'p Roster list \<Rightarrow> storage \<Rightarrow> storage" where
  "save_rosters json_dumps rosters st =
     (if rosters = [] then st
      else st\<lparr>rosters_csv := Some (rosters_header # map (roster_row json_dumps) rosters)\<rparr>)"

definition head_to_head_header :: "cell list" where
  "head_to_head_header = map str_cell
     [''owner1_id'', ''owner2_id'', ''owner1_wins'', ''owner2_wins'',
      ''owner1_points'', ''owner2_points'', ''total_games'']"

definition head_to_head_row :: "HeadToHeadRecord \<Rightarrow> cell list" where
  "head_to_head_row record =
     [str_cell (owner1_id record), str_cell (owner2_id record),
      IntCell (owner1_wins record), IntCell (owner2_wins record),
      FloatCell (owner1_points record), FloatCell (owner2_points record),
      IntCell (total_games record)]"

definition save_head_to_head_records :: "HeadToHeadRecord list \<Rightarrow> storage \<Rightarrow> storage" where
  "save_head_to_head_records records st =
     (if records = [] then st
      else st\<lparr>head_to_head_csv := Some (head_to_head_header # map head_to_head_row records)\<rparr>)"

subsection \<open>Reading\<close>

text \<open>
  \<^verbatim>\<open>pd.read_csv\<close> takes the first row as column names and yields one row per remaining
  line; \<^verbatim>\<open>row['col']\<close> looks a cell up by column name. A file without a header row
  raises \<^verbatim>\<open>EmptyDataError\<close>, a missing column \<^verbatim>\<open>KeyError\<close>.
\<close>

definition column_name :: "cell \<Rightarrow> string" where
  "column_name c = (case c of Text s \<Rightarrow> s | _ \<Rightarrow> [])"

definition read_csv :: "csv_file \<Rightarrow> py_error + (string \<times> cell) list list" where
  "read_csv f =
     (case f of
        [] \<Rightarrow> Inl EmptyDataError
      | header # rows \<Rightarrow> Inr (map (\<lambda>r. zip (map column_name header) r) rows))"

definition row_get :: "(string \<times> cell) list \<Rightarrow> string \<Rightarrow> py_error + cell" where
  "row_get row col = (case map_of row col of None \<Rightarrow> Inl KeyError | Some c \<Rightarrow> Inr c)"

text \<open>
  The conversions the loaders apply to a cell. \<^verbatim>\<open>int(x)\<close> truncates a float towards zero
  and raises \<^verbatim>\<open>ValueError\<close> on NaN and on text; \<^verbatim>\<open>float(x)\<close> and \<^verbatim>\<open>bool(x)\<close> likewise
  follow Python. A field that the loader copies without conversion has the declared type
  \<^verbatim>\<open>str\<close>; a cell of another type there, and a NaN where a float is declared, have no
  counterpart in the record types and are reported as \<open>IllTyped\<close>.
\<close>

definition py_trunc :: "real \<Rightarrow> int" where
  "py_trunc x = (if x < 0 then \<lceil>x\<rceil> else \<lfloor>x\<rfloor>)"

definition as_str :: "cell \<Rightarrow> py_error + string" where
  "as_str c = (case c of Text s \<Rightarrow> Inr s | _ \<Rightarrow> Inl IllTyped)"

definition as_int :: "cell \<Rightarrow> py_error + int" where
  "as_int c =
     (case c of
        IntCell i \<Rightarrow> Inr i
      | FloatCell x \<Rightarrow> Inr (py_trunc x)
      | BoolCell b \<Rightarrow> Inr (if b then 1 else 0)
      | Empty \<Rightarrow> Inl ValueError
      | Text s \<Rightarrow> Inl ValueError)"

definition as_float :: "cell \<Rightarrow> py_error + real" where
  "as_float c =
     (case c of
        IntCell i \<Rightarrow> Inr (real_of_int i)
      | FloatCell x \<Rightarrow> Inr x
      | BoolCell b \<Rightarrow> Inr (if b then 1 else 0)
      | Empty \<Rightarrow> Inl IllTyped
      | Text s \<Rightarrow> Inl ValueError)"

definition as_bool :: "cell \<Rightarrow> py_error + bool" where
  "as_bool c =
     (case c of
        BoolCell b \<Rightarrow> Inr b
      | IntCell i \<Rightarrow> Inr (i \<noteq> 0)
      | FloatCell x \<Rightarrow> Inr (x \<noteq> 0)
      | Empty \<Rightarrow> Inr True
      | Text s \<Rightarrow> Inr True)"

text \<open>\<^verbatim>\<open>row[c] if pd.notna(row[c]) else None\<close>, without and with \<^verbatim>\<open>int(...)\<close>.\<close>

definition as_opt_str :: "cell \<Rightarrow> py_error + string option" where
  "as_opt_str c = (case c of Empty \<Rightarrow> Inr None | Text s \<Rightarrow> Inr (Some s) | _ \<Rightarrow> Inl IllTyped)"


definition field :: "(string \<times> cell) list \<Rightarrow> string \<Rightarrow> (cell \<Rightarrow> py_error + 'a) \<Rightarrow> py_error + 'a" where
  "field row col conv = bind (row_get row col) conv"

definition owner_of_row :: "(string \<times> cell) list \<Rightarrow> py_error + Owner" where
  "owner_of_row row =
     bind (field row ''owner_id'' as_str) (\<lambda>v1.
     bind (field row ''name'' as_str) (\<lambda>v2.
     bind (field row ''email'' as_opt_str) (\<lambda>v3.
     Inr \<lparr>owner_id = v1, name = v2, email = v3\<rparr>)))"

definition load_owners :: "storage \<Rightarrow> py_error + Owner list" where
  "load_owners st =
     (case owners_csv st of
        None \<Rightarrow> Inr []
      | Some f \<Rightarrow> bind (read_csv f) (map_err owner_of_row))"

definition matchup_of_row :: "(string \<times> cell) list \<Rightarrow> py_error + Matchup" where
  "matchup_of_row row =
     bind (field row ''matchup_id'' as_str) (\<lambda>v1.
     bind (field row ''season'' as_int) (\<lambda>v2.
     bind (field row ''week'' as_int) (\<lambda>v3.
     bind (field row ''team1_owner_id'' as_str) (\<lambda>v4.
     bind (field row ''team2_owner_id'' as_str) (\<lambda>v5.
     bind (field row ''team1_score'' as_float) (\<lambda>v6.
     bind (field row ''team2_score'' as_float) (\<lambda>v7.
     bind (field row ''winner_owner_id'' as_opt_str) (\<lambda>v8.
     bind (field row ''playoff'' as_bool) (\<lambda>v9.
     Inr \<lparr>matchup_id = v1, season = v2, week = v3, team1_owner_id = v4, team2_owner_id = v5,
          team1_score = v6, team2_score = v7, winner_owner_id = v8, playoff = v9\<rparr>)))))))))"

definition load_matchups :: "storage \<Rightarrow> py_error + Matchup list" where
  "load_matchups st =
     (case matchups_csv st of
        None \<Rightarrow> Inr []
      | Some f \<Rightarrow> bind (read_csv f) (map_err matchup_of_row))"



definition head_to_head_of_row :: "(string \<times> cell) list \<Rightarrow> py_error + HeadToHeadRecord" where
  "head_to_head_of_row row =
     bind (field row ''owner1_id'' as_str) (\<lambda>v1.
     bind (field row ''owner2_id'' as_str) (\<lambda>v2.
     bind (field row ''owner1_wins'' as_int) (\<lambda>v3.
     bind (field row ''owner2_wins'' as_int) (\<lambda>v4.
     bind (field row ''owner1_points'' as_float) (\<lambda>v5.
     bind (field row ''owner2_points'' as_float) (\<lambda>v6.
     bind (field row ''total_games'' as_int) (\<lambda>v7.
     Inr \<lparr>owner1_id = v1, owner2_id = v2, owner1_wins = v3, owner2_wins = v4,
          owner1_points = v5, owner2_points = v6, total_games = v7\<rparr>)))))))"

definition load_head_to_head_records :: "storage \<Rightarrow> py_error + HeadToHeadRecord list" where
  "load_head_to_head_records st =
     (case head_to_head_csv st of
        None \<Rightarrow> Inr []
      | Some f \<Rightarrow> bind (read_csv f) (map_err head_to_head_of_row))"

section \<open>Analytics engine (analytics.py)\<close>

subsection \<open>Head-to-head records\<close>

text \<open>
  \<^verbatim>\<open>h2h_stats\<close> is a \<^verbatim>\<open>defaultdict\<close> keyed by ordered owner pairs. Its iteration order is
  the order of first insertion, so it is an association list; \<open>dict_modify k f\<close> is
  \<^verbatim>\<open>h2h_stats[k][field] += v\<close>: it updates the entry in place or appends a fresh one made
  from the default statistics.
\<close>

record h2h_stat =
  wins :: int
  losses :: int
  points_for :: real
  points_against :: real
  games :: int

definition default_stat :: h2h_stat where
  "default_stat = \<lparr>wins = 0, losses = 0, points_for = 0, points_against = 0, games = 0\<rparr>"

type_synonym h2h_dict = "((string \<times> string) \<times> h2h_stat) list"

fun dict_modify :: "(string \<times> string) \<Rightarrow> (h2h_stat \<Rightarrow> h2h_stat) \<Rightarrow> h2h_dict \<Rightarrow> h2h_dict" where
  "dict_modify k f [] = [(k, f default_stat)]"
| "dict_modify k f ((k', s) # d) =
     (if k' = k then (k', f s) # d else (k', s) # dict_modify k f d)"

definition stat_of :: "h2h_dict \<Rightarrow> (string \<times> string) \<Rightarrow> h2h_stat" where
  "stat_of d k = (case map_of d k of None \<Rightarrow> default_stat | Some s \<Rightarrow> s)"

text \<open>\<^verbatim>\<open>tuple(sorted([owner1, owner2]))\<close>: strings are compared lexicographically by code point.\<close>

definition pair_key :: "string \<Rightarrow> string \<Rightarrow> string \<times> string" where
  "pair_key a b = (if b < a then (b, a) else (a, b))"

text \<open>One iteration of the loop over the matchups (lines 28 to 57).\<close>

definition tally_matchup :: "Matchup \<Rightarrow> h2h_dict \<Rightarrow> h2h_dict" where
  "tally_matchup m d =
     (if \<not> truthy (winner_owner_id m) then d
      else
        let owner1 = team1_owner_id m;
            owner2 = team2_owner_id m;
            d1 = (if winner_owner_id m = Some owner1
                  then dict_modify (owner2, owner1) (\<lambda>s. s\<lparr>losses := losses s + 1\<rparr>)
                         (dict_modify (owner1, owner2) (\<lambda>s. s\<lparr>wins := wins s + 1\<rparr>) d)
                  else dict_modify (owner1, owner2) (\<lambda>s. s\<lparr>losses := losses s + 1\<rparr>)
                         (dict_modify (owner2, owner1) (\<lambda>s. s\<lparr>wins := wins s + 1\<rparr>) d));
            d2 = dict_modify (owner1, owner2) (\<lambda>s. s\<lparr>points_for := points_for s + team1_score m\<rparr>) d1;
            d3 = dict_modify (owner1, owner2) (\<lambda>s. s\<lparr>points_against := points_against s + team2_score m\<rparr>) d2;
            d4 = dict_modify (owner2, owner1) (\<lambda>s. s\<lparr>points_for := points_for s + team2_score m\<rparr>) d3;
            d5 = dict_modify (owner2, owner1) (\<lambda>s. s\<lparr>points_against := points_against s + team1_score m\<rparr>) d4;
            d6 = dict_modify (owner1, owner2) (\<lambda>s. s\<lparr>games := games s + 1\<rparr>) d5;
            d7 = dict_modify (owner2, owner1) (\<lambda>s. s\<lparr>games := games s + 1\<rparr>) d6
        in d7)"

definition h2h_stats :: "Matchup list \<Rightarrow> h2h_dict" where
  "h2h_stats matchups = fold tally_matchup matchups []"

text \<open>
  The second loop (lines 63 to 84) walks the items of the dictionary. Reading
  \<^verbatim>\<open>h2h_stats[(owner2, owner1)]\<close> for a key that is absent would insert it and make the
  iteration raise \<^verbatim>\<open>RuntimeError\<close> (dictionary changed size during iteration).
\<close>

fun collapse_pairs ::
  "h2h_dict \<Rightarrow> h2h_dict \<Rightarrow> (string \<times> string) list \<Rightarrow> py_error + HeadToHeadRecord list" where
  "collapse_pairs [] d processed_pairs = Inr []"
| "collapse_pairs (((owner1, owner2), stats) # rest) d processed_pairs =
     (if pair_key owner1 owner2 \<in> set processed_pairs then collapse_pairs rest d processed_pairs
      else if (owner2, owner1) \<notin> fst ` set d then Inl RuntimeError
      else
        (case collapse_pairs rest d (pair_key owner1 owner2 # processed_pairs) of
           Inl e \<Rightarrow> Inl e
         | Inr records \<Rightarrow>
             Inr (\<lparr>owner1_id = owner1, owner2_id = owner2,
                   owner1_wins = wins (stat_of d (owner1, owner2)),
                   owner2_wins = wins (stat_of d (owner2, owner1)),
                   owner1_points = points_for (stat_of d (owner1, owner2)),
                   owner2_points = points_for (stat_of d (owner2, owner1)),
                   total_games = games (stat_of d (owner1, owner2))\<rparr> # records)))"

definition head_to_head_records :: "Matchup list \<Rightarrow> py_error + HeadToHeadRecord list" where
  "head_to_head_records matchups = (let d = h2h_stats matchups in collapse_pairs d d [])"

text \<open>
  The method itself: load the matchups and owners, compute the records, save them
  (\<^verbatim>\<open>save_head_to_head_records\<close> leaves the file alone when there is no record).
\<close>

definition calculate_head_to_head_records ::
  "storage \<Rightarrow> py_error + (HeadToHeadRecord list \<times> storage)" where
  "calculate_head_to_head_records st =
     bind (load_matchups st) (\<lambda>matchups.
     bind (load_owners st) (\<lambda>owners.
     bind (head_to_head_records matchups) (\<lambda>records.
     Inr (records, save_head_to_head_records records st))))"

subsection \<open>Rivalry analysis\<close>

record Rivalry =
  rv_owner1 :: string
  rv_owner2 :: string
  rv_total_games :: int
  rv_owner1_wins :: int
  rv_owner2_wins :: int
  competitiveness_score :: real
  avg_points_diff :: real
  series_leader :: string

text \<open>
  \<^verbatim>\<open>round(x, ndigits)\<close> on exact numbers: to the nearest multiple of \<open>10 ^ - ndigits\<close>, a tie
  going to the even one.
\<close>

definition round_half_even :: "real \<Rightarrow> int" where
  "round_half_even x =
     (let f = \<lfloor>x\<rfloor>; d = x - of_int f
      in if d < 1 / 2 then f else if 1 / 2 < d then f + 1 else if even f then f else f + 1)"

definition py_round :: "real \<Rightarrow> nat \<Rightarrow> real" where
  "py_round x ndigits = of_int (round_half_even (x * 10 ^ ndigits)) / 10 ^ ndigits"

text \<open>\<^verbatim>\<open>{owner.owner_id: owner.name for owner in owners}\<close>: a later owner overrides an earlier one.\<close>

definition owner_names :: "Owner list \<Rightarrow> string \<Rightarrow> string option" where
  "owner_names owners = map_of (rev (map (\<lambda>owner. (owner_id owner, name owner)) owners))"

definition dict_get :: "(string \<Rightarrow> string option) \<Rightarrow> string \<Rightarrow> string \<Rightarrow> string" where
  "dict_get m k dflt = (case m k of None \<Rightarrow> dflt | Some v \<Rightarrow> v)"

definition competitiveness :: "HeadToHeadRecord \<Rightarrow> real" where
  "competitiveness record =
     (let total_wins = owner1_wins record + owner2_wins record;
          win_diff = \<bar>owner1_wins record - owner2_wins record\<bar>
      in if total_wins > 0 then 1 - of_int win_diff / of_int total_wins else 0)"

definition points_diff :: "HeadToHeadRecord \<Rightarrow> real" where
  "points_diff record =
     (if total_games record > 0
      then \<bar>owner1_points record / of_int (total_games record)
            - owner2_points record / of_int (total_games record)\<bar>
      else 0)"

definition rivalry_of :: "(string \<Rightarrow> string option) \<Rightarrow> HeadToHeadRecord \<Rightarrow> Rivalry" where
  "rivalry_of names record =
     \<lparr>rv_owner1 = dict_get names (owner1_id record) (owner1_id record),
      rv_owner2 = dict_get names (owner2_id record) (owner2_id record),
      rv_total_games = total_games record,
      rv_owner1_wins = owner1_wins record,
      rv_owner2_wins = owner2_wins record,
      competitiveness_score = py_round (competitiveness record) 3,
      avg_points_diff = py_round (points_diff record) 1,
      series_leader =
        dict_get names
          (if owner1_wins record > owner2_wins record then owner1_id record else owner2_id record)
          ''Tied''\<rparr>"

text \<open>
  \<^verbatim>\<open>rivalries.sort(key=..., reverse=True)\<close> is a stable sort by descending score.
\<close>

definition rivalries_of ::
  "HeadToHeadRecord list \<Rightarrow> Owner list \<Rightarrow> int \<Rightarrow> Rivalry list" where
  "rivalries_of h2h_records owners min_games =
     sort_key (\<lambda>e. - competitiveness_score e)
       (map (rivalry_of (owner_names owners))
          (filter (\<lambda>record. total_games record \<ge> min_games) h2h_records))"

definition get_rivalry_analysis :: "storage \<Rightarrow> int \<Rightarrow> py_error + Rivalry list" where
  "get_rivalry_analysis st min_games =
     bind (load_head_to_head_records st) (\<lambda>h2h_records.
     bind (load_owners st) (\<lambda>owners.
     Inr (rivalries_of h2h_records owners min_games)))"

section \<open>Owner identifiers (extractor.py)\<close>

text \<open>
  \<^verbatim>\<open>_generate_owner_id\<close>: lower-case the name, delete every character that is neither an
  ASCII letter or digit nor whitespace, split at whitespace, join with underscores.
  Whitespace is what \<^verbatim>\<open>\s\<close> and \<^verbatim>\<open>str.split\<close> take it to be among the first 256 code
  points; \<^verbatim>\<open>str.lower\<close> there maps A to Z and the upper-case letters of Latin-1.
\<close>

definition code_point :: "char \<Rightarrow> nat" where
  "code_point c = of_char c"

definition py_lower :: "char \<Rightarrow> char" where
  "py_lower c =
     (let n = code_point c in
      if (65 \<le> n \<and> n \<le> 90) \<or> (192 \<le> n \<and> n \<le> 222 \<and> n \<noteq> 215)
      then char_of (n + 32) else c)"

definition is_space :: "char \<Rightarrow> bool" where
  "is_space c =
     (let n = code_point c in
      (9 \<le> n \<and> n \<le> 13) \<or> (28 \<le> n \<and> n \<le> 32) \<or> n = 133 \<or> n = 160)"

definition is_ascii_alnum :: "char \<Rightarrow> bool" where
  "is_ascii_alnum c =
     (let n = code_point c in
      (97 \<le> n \<and> n \<le> 122) \<or> (65 \<le> n \<and> n \<le> 90) \<or> (48 \<le> n \<and> n \<le> 57))"

definition clean_name :: "string \<Rightarrow> string" where
  "clean_name owner_name =
     filter (\<lambda>c. is_ascii_alnum c \<or> is_space c) (map py_lower owner_name)"

fun split_loop :: "string \<Rightarrow> string \<Rightarrow> string list" where
  "split_loop w [] = (if w = [] then [] else [w])"
| "split_loop w (c # cs) =
     (if is_space c then (if w = [] then split_loop [] cs else w # split_loop [] cs)
      else split_loop (w @ [c]) cs)"

definition py_split :: "string \<Rightarrow> string list" where
  "py_split s = split_loop [] s"

fun py_join :: "string \<Rightarrow> string list \<Rightarrow> string" where
  "py_join sep [] = []"
| "py_join sep [w] = w"
| "py_join sep (w # ws) = w @ sep @ py_join sep ws"

definition generate_owner_id :: "string \<Rightarrow> string" where
  "generate_owner_id owner_name = py_join ''_'' (py_split (clean_name owner_name))"

section \<open>Psychology insights (create_psychology_insights.py)\<close>

subsection \<open>Streaks\<close>

text \<open>
  \<open>streak_loop\<close> is the body of the \<^verbatim>\<open>for\<close> loop of \<^verbatim>\<open>calculate_streaks\<close>; its first
  argument is \<^verbatim>\<open>results[i-1]\<close>. The two conditional increments of the source add or
  subtract one in either branch.
\<close>

fun streak_loop :: "bool \<Rightarrow> int \<Rightarrow> int list \<Rightarrow> bool list \<Rightarrow> int list" where
  "streak_loop prev current_streak streaks [] = streaks @ [current_streak]"
| "streak_loop prev current_streak streaks (r # rs) =
     (if r = prev then
        (if r then streak_loop r (current_streak + (if current_streak > 0 then 1 else 1)) streaks rs
         else streak_loop r (current_streak - (if current_streak < 0 then 1 else 1)) streaks rs)
      else streak_loop r (if r then 1 else - 1) (streaks @ [current_streak]) rs)"

definition calculate_streaks :: "bool list \<Rightarrow> int list" where
  "calculate_streaks results =
     (case results of
        [] \<Rightarrow> [0]
      | r # rs \<Rightarrow> streak_loop r (if r then 1 else - 1) [] rs)"

definition max_win_streak :: "bool list \<Rightarrow> int" where
  "max_win_streak results = Max (set (filter (\<lambda>s. s > 0) (calculate_streaks results) @ [0]))"

definition max_lose_streak :: "bool list \<Rightarrow> int" where
  "max_lose_streak results = \<bar>Min (set (filter (\<lambda>s. s < 0) (calculate_streaks results) @ [0]))\<bar>"

subsection \<open>The rows of the league dataset\<close>

text \<open>
  A row of \<^verbatim>\<open>league_hard_knox_2017_2024_complete.csv\<close>. The winning manager is absent (NaN)
  for a game without a winner.
\<close>

record Game =
  g_season :: int
  g_week :: int
  team1 :: string
  manager1 :: string
  g_team1_score :: real
  team2 :: string
  manager2 :: string
  g_team2_score :: real
  winning_manager :: "string option"
  g_playoff :: bool

definition active_managers :: "string list" where
  "active_managers =
     [''Hayden'', ''Michael'', ''Phoenix'', ''Billy'', ''Robbie'', ''Nelson'',
      ''Fraser'', ''Justin'', ''Angus'', ''Nic'', ''William'', ''James'']"

text \<open>The filter both scripts apply to the dataset before any analysis.\<close>

definition current_matchups :: "Game list \<Rightarrow> string list \<Rightarrow> Game list" where
  "current_matchups matchups_df managers =
     filter (\<lambda>row. manager1 row \<in> set managers \<and> manager2 row \<in> set managers) matchups_df"

text \<open>\<^verbatim>\<open>np.mean\<close> and the pandas mean: NaN on an empty list.\<close>

definition np_mean :: "real list \<Rightarrow> real option" where
  "np_mean xs = (if xs = [] then None else Some (sum_list xs / real (length xs)))"

definition manager_games :: "Game list \<Rightarrow> string \<Rightarrow> Game list" where
  "manager_games matchups_df manager =
     filter (\<lambda>row. manager1 row = manager \<or> manager2 row = manager) matchups_df"

subsection \<open>The Defensive axis of the manager DNA\<close>

text \<open>
  Lines 189 to 199 and 247 to 250 of \<^verbatim>\<open>analyze_manager_dna\<close>. A comparison with NaN is
  false, so the \<^verbatim>\<open>else\<close> branch is taken when there are no opponent scores.
\<close>

definition opponent_scores :: "Game list \<Rightarrow> string \<Rightarrow> real list" where
  "opponent_scores matchups_df manager =
     map (\<lambda>row. if manager1 row = manager then g_team2_score row else g_team1_score row)
       (manager_games matchups_df manager)"

definition defensive :: "Game list \<Rightarrow> string \<Rightarrow> real" where
  "defensive matchups_df manager =
     (let avg_opp_score = np_mean (opponent_scores matchups_df manager);
          league_opp_avg = avg_opp_score
      in case (avg_opp_score, league_opp_avg) of
           (Some a, Some l) \<Rightarrow> if l > 0 then max 0 (min ((1 - a / l) * 10 + 5) 10) else 5
         | _ \<Rightarrow> 5)"

section \<open>Temporal dynamics (create_temporal_dynamics_insights.py)\<close>

subsection \<open>Bad beats\<close>

record BadBeat =
  bb_season :: int
  bb_week :: int
  bb_manager :: string
  bb_team :: string
  bb_score :: real
  bb_opponent :: string
  bb_opponent_score :: real
  bb_margin :: real
  bb_season_avg :: real
  bb_above_avg :: real
  bb_playoff :: bool

definition season_scores :: "Game list \<Rightarrow> int \<Rightarrow> real list" where
  "season_scores matchups_df s =
     (let season_data = filter (\<lambda>row. g_season row = s) matchups_df
      in map g_team1_score season_data @ map g_team2_score season_data)"

definition season_averages :: "Game list \<Rightarrow> (int \<times> real option) list" where
  "season_averages matchups_df =
     map (\<lambda>s. (s, np_mean (season_scores matchups_df s))) (remdups (map g_season matchups_df))"

text \<open>\<^verbatim>\<open>season_averages.get(row['season'], 120)\<close>.\<close>

definition season_avg_of :: "Game list \<Rightarrow> int \<Rightarrow> real option" where
  "season_avg_of matchups_df s =
     (case map_of (season_averages matchups_df) s of None \<Rightarrow> Some 120 | Some a \<Rightarrow> a)"

definition team1_beat :: "Game \<Rightarrow> real \<Rightarrow> BadBeat" where
  "team1_beat row season_avg =
     \<lparr>bb_season = g_season row, bb_week = g_week row, bb_manager = manager1 row,
      bb_team = team1 row, bb_score = g_team1_score row, bb_opponent = manager2 row,
      bb_opponent_score = g_team2_score row,
      bb_margin = g_team2_score row - g_team1_score row,
      bb_season_avg = season_avg, bb_above_avg = g_team1_score row - season_avg,
      bb_playoff = g_playoff row\<rparr>"

definition team2_beat :: "Game \<Rightarrow> real \<Rightarrow> BadBeat" where
  "team2_beat row season_avg =
     \<lparr>bb_season = g_season row, bb_week = g_week row, bb_manager = manager2 row,
      bb_team = team2 row, bb_score = g_team2_score row, bb_opponent = manager1 row,
      bb_opponent_score = g_team1_score row,
      bb_margin = g_team1_score row - g_team2_score row,
      bb_season_avg = season_avg, bb_above_avg = g_team2_score row - season_avg,
      bb_playoff = g_playoff row\<rparr>"

text \<open>The two checks of one row (lines 143 to 181); a comparison with a NaN average is false.\<close>

definition row_beats :: "Game list \<Rightarrow> string list \<Rightarrow> Game \<Rightarrow> BadBeat list" where
  "row_beats matchups_df managers row =
     (case season_avg_of matchups_df (g_season row) of
        None \<Rightarrow> []
      | Some season_avg \<Rightarrow>
          (if manager1 row \<in> set managers \<and> g_team1_score row \<ge> season_avg + 20
                \<and> winning_manager row \<noteq> Some (manager1 row)
           then [team1_beat row season_avg] else [])
          @
          (if manager2 row \<in> set managers \<and> g_team2_score row \<ge> season_avg + 20
                \<and> winning_manager row \<noteq> Some (manager2 row)
           then [team2_beat row season_avg] else []))"

text \<open>
  \<^verbatim>\<open>pd.DataFrame(bad_beats).sort_values(['above_avg', 'margin'], ascending=[False, False])\<close>:
  a frame built from the empty list has no columns, so sorting it raises \<^verbatim>\<open>KeyError\<close>.
\<close>

definition analyze_bad_beats :: "Game list \<Rightarrow> string list \<Rightarrow> py_error + BadBeat list" where
  "analyze_bad_beats matchups_df managers =
     (let bad_beats = concat (map (row_beats matchups_df managers) matchups_df)
      in if bad_beats = [] then Inl KeyError
         else Inr (sort_key (\<lambda>e. (- bb_above_avg e, - bb_margin e)) bad_beats))"

text \<open>
  \<^verbatim>\<open>create_temporal_dynamics_insights\<close> hands the filtered dataset on:
  \<^verbatim>\<open>analyze_temporal_patterns(current_matchups, active_managers)\<close> calls
  \<^verbatim>\<open>analyze_bad_beats(matchups_df, active_managers)\<close> with it.
\<close>

definition pipeline_bad_beats :: "Game list \<Rightarrow> py_error + BadBeat list" where
  "pipeline_bad_beats matchups_df =
     analyze_bad_beats (current_matchups matchups_df active_managers) active_managers"

subsection \<open>Parity: the Gini coefficient\<close>

text \<open>
  \<^verbatim>\<open>calculate_gini\<close>. The first quotient is a numpy division: a zero denominator gives NaN
  or an infinity (the result \<open>Inr None\<close>) and no exception; \<^verbatim>\<open>(n + 1) / n\<close> divides Python
  integers and raises for \<open>n = 0\<close>.
\<close>

definition calculate_gini :: "real list \<Rightarrow> py_error + real option" where
  "calculate_gini vals =
     (let values = sort vals;
          n = length values;
          index = [1..<n + 1];
          weighted = sum_list (map2 (\<lambda>i v. real i * v) index values);
          denom = real n * sum_list values
      in if n = 0 then Inl ZeroDivisionError
         else if denom = 0 then Inr None
         else Inr (Some ((2 * weighted) / denom - (real n + 1) / real n)))"

text \<open>The win percentages of one season (lines 330 to 343 of \<^verbatim>\<open>analyze_parity_evolution\<close>).\<close>

definition season_win_pcts :: "Game list \<Rightarrow> string list \<Rightarrow> real list" where
  "season_win_pcts season_data managers =
     concat (map (\<lambda>manager.
        (let games = manager_games season_data manager
         in if games = [] then []
            else [real (length (filter (\<lambda>row. winning_manager row = Some manager) games))
                    / real (length games)]))
        managers)"

definition season_gini :: "Game list \<Rightarrow> string list \<Rightarrow> (py_error + real option) option" where
  "season_gini season_data managers =
     (let pcts = season_win_pcts season_data managers
      in if pcts = [] then None else Some (calculate_gini pcts))"

section \<open>Project cleanup (cleanup_project.py)\<close>

text \<open>
  The file system as far as the script reads it: a path is absent, a regular file of some
  size in bytes, or a directory, given by the sizes of the regular files below it.
  \<^verbatim>\<open>shutil.rmtree\<close> on a file and \<^verbatim>\<open>unlink\<close> on a directory raise an \<^verbatim>\<open>OSError\<close>.
\<close>

datatype fs_node = File nat | Dir "nat list"

type_synonym fs = "string \<Rightarrow> fs_node option"

definition redundant_dirs :: "string list" where
  "redundant_dirs =
     [''data/full_seasons_2020_2024'', ''data/full_seasons_2017_2024'',
      ''data/manager_mapped_dataset'', ''data/final_corrected_dataset'',
      ''data/manager_analysis_2020_2024'', ''data/manager_analysis_final'',
      ''data/owner_mappings'', ''data/season_2019'']"

definition redundant_scripts :: "string list" where
  "redundant_scripts =
     [''scripts/extract_real_data.py'', ''scripts/extract_with_better_parsing.py'',
      ''scripts/extract_real_game_data.py'', ''scripts/extract_final_real_data.py'',
      ''scripts/extract_matchup_data.py'', ''scripts/extract_week_matchups.py'',
      ''scripts/extract_owner_mappings.py'', ''scripts/extract_full_seasons.py'',
      ''scripts/extract_seasons_efficient.py'', ''scripts/extract_2022_and_combine.py'',
      ''scripts/extract_2020_2021.py'', ''scripts/extract_manager_names.py'',
      ''scripts/extract_2017_2019.py'', ''scripts/extract_2017_2019_focused.py'',
      ''scripts/extract_2019_only.py'', ''scripts/check_2019_data.py'',
      ''scripts/check_historical_availability.py'', ''scripts/create_owner_mapped_dataset.py'',
      ''scripts/create_fixed_owner_mapping.py'', ''scripts/create_final_corrected_dataset.py'',
      ''scripts/create_owner_mapped_dataset.py'', ''scripts/create_final_manager_reports.py'']"

definition redundant_files :: "string list" where
  "redundant_files =
     [''data/actual_owners/owners_2017.csv'', ''data/actual_owners/owners_2018.csv'',
      ''data/actual_owners/owners_2019.csv'', ''data/actual_owners/owners_2020.csv'',
      ''data/actual_owners/owners_2021.csv'', ''data/actual_owners/owners_2022.csv'',
      ''data/actual_owners/owners_2023.csv'', ''data/actual_owners/owners_2024.csv'']"

text \<open>One iteration of the loop over the directories (lines 89 to 100).\<close>

definition remove_dir :: "string \<Rightarrow> real \<times> fs \<Rightarrow> py_error + real \<times> fs" where
  "remove_dir dir_path state =
     (let total_size_saved = fst state; files = snd state
      in case files dir_path of
           None \<Rightarrow> Inr state
         | Some (Dir sizes) \<Rightarrow>
             (let size_bytes = sum_list sizes;
                  size_mb = real size_bytes / (1024 * 1024)
              in Inr (total_size_saved + size_mb, files(dir_path := None)))
         | Some (File st_size) \<Rightarrow> Inl OSError)"

text \<open>One iteration of either loop over files (lines 104 to 112 and 128 to 134).\<close>

definition remove_file :: "string \<Rightarrow> real \<times> fs \<Rightarrow> py_error + real \<times> fs" where
  "remove_file file_path state =
     (let total_size_saved = fst state; files = snd state
      in case files file_path of
           None \<Rightarrow> Inr state
         | Some (File st_size) \<Rightarrow>
             (let size_kb = real st_size / 1024
              in Inr (total_size_saved + size_kb / 1024, files(file_path := None)))
         | Some (Dir sizes) \<Rightarrow> Inl OSError)"

fun for_each ::
  "('a \<Rightarrow> 's \<Rightarrow> py_error + 's) \<Rightarrow> 'a list \<Rightarrow> 's \<Rightarrow> py_error + 's" where
  "for_each body [] state = Inr state"
| "for_each body (x # xs) state = bind (body x state) (for_each body xs)"

text \<open>
  The deleting part of \<^verbatim>\<open>cleanup_project\<close> (lines 87 to 134): the result is the value of
  \<^verbatim>\<open>total_size_saved\<close> that line 203 prints as megabytes, and the file system left behind.
\<close>

definition cleanup_project :: "fs \<Rightarrow> py_error + real \<times> fs" where
  "cleanup_project files =
     bind (for_each remove_dir redundant_dirs (0, files)) (\<lambda>s1.
     bind (for_each remove_file redundant_scripts s1) (\<lambda>s2.
     for_each remove_file redundant_files s2))"

section \<open>Notions used to state the properties\<close>

subsection \<open>Head-to-head tallies\<close>

text \<open>
  The direction of the dictionary that a decided matchup credits with a win, the invariant
  of the dictionary, and the record the second loop builds for a key.
\<close>

definition winner_key :: "Matchup \<Rightarrow> string \<times> string" where
  "winner_key m =
     (if winner_owner_id m = Some (team1_owner_id m)
      then (team1_owner_id m, team2_owner_id m) else (team2_owner_id m, team1_owner_id m))"

definition h2h_inv :: "h2h_dict \<Rightarrow> bool" where
  "h2h_inv d \<longleftrightarrow>
     (\<forall>a b. wins (stat_of d (a, b)) + wins (stat_of d (b, a)) = games (stat_of d (a, b))) \<and>
     (\<forall>a b. points_for (stat_of d (a, b)) = points_against (stat_of d (b, a))) \<and>
     (\<forall>a b. (a, b) \<in> fst ` set d \<longrightarrow> (b, a) \<in> fst ` set d)"

definition record_of :: "h2h_dict \<Rightarrow> string \<Rightarrow> string \<Rightarrow> HeadToHeadRecord" where
  "record_of d owner1 owner2 =
     \<lparr>owner1_id = owner1, owner2_id = owner2,
      owner1_wins = wins (stat_of d (owner1, owner2)),
      owner2_wins = wins (stat_of d (owner2, owner1)),
      owner1_points = points_for (stat_of d (owner1, owner2)),
      owner2_points = points_for (stat_of d (owner2, owner1)),
      total_games = games (stat_of d (owner1, owner2))\<rparr>"

definition decided :: "Matchup \<Rightarrow> bool" where
  "decided m = truthy (winner_owner_id m)"

subsection \<open>Runs of equal results\<close>

text \<open>
  \<open>runs\<close> cuts a sequence into its maximal runs of equal results, each with its length;
  \<open>longest_run b\<close> is the greatest number of consecutive occurrences of \<open>b\<close>, defined
  without reference to runs.
\<close>

function runs :: "bool list \<Rightarrow> (bool \<times> nat) list" where
  "runs [] = []"
| "runs (r # rs) =
     (r, Suc (length (takeWhile (\<lambda>x. x = r) rs))) # runs (dropWhile (\<lambda>x. x = r) rs)"
  by pat_completeness auto
termination
  by (relation "measure length") (auto simp: length_dropWhile_le less_Suc_eq_le)

definition signed_length :: "bool \<times> nat \<Rightarrow> int" where
  "signed_length p = (if fst p then int (snd p) else - int (snd p))"

definition longest_run :: "bool \<Rightarrow> bool list \<Rightarrow> nat" where
  "longest_run b results = Max {n. sublist (replicate n b) results}"

subsection \<open>Whitespace in identifiers\<close>

text \<open>
  \<open>strip_ws\<close> removes leading and trailing whitespace; \<open>squeeze_ws\<close> replaces every maximal
  run of whitespace by one underscore and keeps every other character; \<open>is_id_char\<close>
  holds of the lower-case ASCII letters, the digits and the underscore.
\<close>

definition strip_ws :: "string \<Rightarrow> string" where
  "strip_ws s = dropWhile is_space (rev (dropWhile is_space (rev s)))"

function squeeze_ws :: "string \<Rightarrow> string" where
  "squeeze_ws [] = []"
| "squeeze_ws (c # cs) =
     (if is_space c then CHR ''_'' # squeeze_ws (dropWhile is_space cs)
      else c # squeeze_ws cs)"
  by pat_completeness auto
termination
  by (relation "measure length") (auto simp: length_dropWhile_le less_Suc_eq_le)

definition is_id_char :: "char \<Rightarrow> bool" where
  "is_id_char c =
     (let n = code_point c in
      (97 \<le> n \<and> n \<le> 122) \<or> (48 \<le> n \<and> n \<le> 57) \<or> c = CHR ''_'')"

definition rstrip :: "string \<Rightarrow> string" where
  "rstrip s = rev (dropWhile is_space (rev s))"

subsection \<open>Well-formed entities for the CSV round trip\<close>


definition wf_matchup :: "Matchup \<Rightarrow> bool" where
  "wf_matchup m \<longleftrightarrow>
     matchup_id m \<noteq> [] \<and> team1_owner_id m \<noteq> [] \<and> team2_owner_id m \<noteq> [] \<and>
     winner_owner_id m \<noteq> Some []"


subsection \<open>Bad beats\<close>

text \<open>
  \<open>qualifies pool row first\<close>: the manager on the given side of the row is on the active
  roster, scored at least 20 points above the average of all scores that the rows of
  \<open>pool\<close> have in the row's season, and is not the winning manager.
\<close>

definition qualifies :: "Game list \<Rightarrow> Game \<Rightarrow> bool \<Rightarrow> bool" where
  "qualifies pool row first \<longleftrightarrow>
     (let manager = (if first then manager1 row else manager2 row);
          score = (if first then g_team1_score row else g_team2_score row)
      in manager \<in> set active_managers \<and>
         (case np_mean (season_scores pool (g_season row)) of
            None \<Rightarrow> False
          | Some avg \<Rightarrow> score \<ge> avg + 20) \<and>
         winning_manager row \<noteq> Some manager)"

subsection \<open>Cleanup totals\<close>

text \<open>
  The bytes a path holds, the file system without a set of paths, and the conditions under
  which no deletion raises. \<open>claimed_space_saved\<close> follows the wording of the specification:
  megabytes for each directory, kilobytes for each file.
\<close>

definition bytes_at :: "fs \<Rightarrow> string \<Rightarrow> nat" where
  "bytes_at files p =
     (case files p of None \<Rightarrow> 0 | Some (File n) \<Rightarrow> n | Some (Dir sizes) \<Rightarrow> sum_list sizes)"

definition removed :: "fs \<Rightarrow> string set \<Rightarrow> fs" where
  "removed files A = (\<lambda>q. if q \<in> A then None else files q)"

definition no_file_at :: "fs \<Rightarrow> string list \<Rightarrow> bool" where
  "no_file_at files ps \<longleftrightarrow> (\<forall>p\<in>set ps. \<forall>n. files p \<noteq> Some (File n))"

definition no_dir_at :: "fs \<Rightarrow> string list \<Rightarrow> bool" where
  "no_dir_at files ps \<longleftrightarrow> (\<forall>p\<in>set ps. \<forall>sizes. files p \<noteq> Some (Dir sizes))"

definition all_redundant :: "string list" where
  "all_redundant = redundant_dirs @ redundant_scripts @ redundant_files"

definition claimed_space_saved :: "fs \<Rightarrow> real" where
  "claimed_space_saved files =
     (\<Sum>p\<in>set redundant_dirs. real (bytes_at files p) / (1024 * 1024)) +
     (\<Sum>p\<in>set (redundant_scripts @ redundant_files). real (bytes_at files p) / 1024)"

section \<open>Example data\<close>

definition example_matchups :: "Matchup list" where
  "example_matchups =
     [\<lparr>matchup_id = ''2020_1_0'', season = 2020, week = 1, team1_owner_id = ''billy'',
       team2_owner_id = ''hayden'', team1_score = 101, team2_score = 95,
       winner_owner_id = Some ''billy'', playoff = False\<rparr>,
      \<lparr>matchup_id = ''2020_2_0'', season = 2020, week = 2, team1_owner_id = ''hayden'',
       team2_owner_id = ''billy'', team1_score = 88, team2_score = 88,
       winner_owner_id = None, playoff = False\<rparr>]"

definition example_owner :: Owner where
  "example_owner = \<lparr>owner_id = ''robbie_g'', name = ''Robbie G.'', email = None\<rparr>"

definition example_season_record :: SeasonRecord where
  "example_season_record =
     \<lparr>sr_owner_id = ''billy'', sr_season = 2020, sr_wins = 9, sr_losses = 4, sr_ties = 0,
      sr_points_for = 1502, sr_points_against = 1388, final_rank = 2, playoff_seed = Some 2\<rparr>"


definition example_team :: Team where
  "example_team =
     \<lparr>team_id = ''2020_3'', team_owner_id = ''billy'', team_name = ''Bills'', team_season = 2020,
      division = None\<rparr>"

definition example_roster :: "string Roster" where
  "example_roster =
     \<lparr>roster_id = ''2020_1_billy'', roster_owner_id = ''billy'', roster_season = 2020,
      roster_week = 1, players = ''[]''\<rparr>"

definition empty_storage :: storage where
  "empty_storage =
     \<lparr>owners_csv = None, teams_csv = None, matchups_csv = None, season_records_csv = None,
      rosters_csv = None, head_to_head_csv = None\<rparr>"

definition example_storage :: storage where
  "example_storage = save_matchups example_matchups empty_storage"



definition even_record :: HeadToHeadRecord where
  "even_record =
     \<lparr>owner1_id = ''billy'', owner2_id = ''hayden'', owner1_wins = 3, owner2_wins = 3,
      owner1_points = 640, owner2_points = 610, total_games = 6\<rparr>"

definition tied_season :: "Game list" where
  "tied_season =
     [\<lparr>g_season = 2020, g_week = 1, team1 = ''royalfam'', manager1 = ''Hayden'',
       g_team1_score = 100, team2 = ''Knox'', manager2 = ''Michael'', g_team2_score = 100,
       winning_manager = None, g_playoff = False\<rparr>]"

definition split_season :: "Game list" where
  "split_season =
     [\<lparr>g_season = 2020, g_week = 1, team1 = ''royalfam'', manager1 = ''Hayden'',
       g_team1_score = 120, team2 = ''Knox'', manager2 = ''Michael'', g_team2_score = 100,
       winning_manager = Some ''Hayden'', g_playoff = False\<rparr>,
      \<lparr>g_season = 2020, g_week = 2, team1 = ''Knox'', manager1 = ''Michael'',
       g_team1_score = 130, team2 = ''royalfam'', manager2 = ''Hayden'', g_team2_score = 90,
       winning_manager = Some ''Michael'', g_playoff = False\<rparr>]"

definition hayden_game :: Game where
  "hayden_game =
     \<lparr>g_season = 2020, g_week = 1, team1 = ''royalfam'', manager1 = ''Hayden'',
      g_team1_score = 150, team2 = ''Knox'', manager2 = ''Michael'', g_team2_score = 160,
      winning_manager = Some ''Michael'', g_playoff = False\<rparr>"

definition billy_game :: Game where
  "billy_game =
     \<lparr>g_season = 2020, g_week = 1, team1 = ''Bills'', manager1 = ''Billy'',
      g_team1_score = 60, team2 = ''Robbers'', manager2 = ''Robbie'', g_team2_score = 50,
      winning_manager = Some ''Billy'', g_playoff = False\<rparr>"

definition former_game :: Game where
  "former_game =
     \<lparr>g_season = 2020, g_week = 1, team1 = ''Ghosts'', manager1 = ''Unknown_Ghosts'',
      g_team1_score = 400, team2 = ''Relics'', manager2 = ''Unknown_Relics'',
      g_team2_score = 400, winning_manager = None, g_playoff = False\<rparr>"

definition mixed_league :: "Game list" where
  "mixed_league = [hayden_game, billy_game, former_game]"

definition example_tree :: fs where
  "example_tree =
     (\<lambda>p. if p = ''data/season_2019'' then Some (Dir [1048576, 2097152])
          else if p = ''scripts/check_2019_data.py'' then Some (File 524288)
          else None)"

definition one_script :: fs where
  "one_script = (\<lambda>p. if p = ''scripts/extract_real_data.py'' then Some (File 1048576) else None)"

section \<open>CSV storage: the round trip of one file\<close>

lemma map_err_map:
  "(\<And>x. x \<in> set xs \<Longrightarrow> f (g x) = Inr x) \<Longrightarrow> map_err f (map g xs) = Inr xs"
  by (induction xs) (simp_all add: bind_def)


lemma matchup_roundtrip_row:
  "wf_matchup m \<Longrightarrow> matchup_of_row (zip (map column_name matchups_header) (matchup_row m)) = Inr m"
  unfolding matchup_of_row_def field_def row_get_def
  by (cases "winner_owner_id m")
     (simp_all add: matchups_header_def matchup_row_def column_name_def str_cell_def bind_def
       wf_matchup_def
       as_str_def as_opt_str_def str_or_empty_def truthy_def as_int_def as_float_def as_bool_def)



lemma load_save_matchups:
  "matchups \<noteq> [] \<Longrightarrow> list_all wf_matchup matchups \<Longrightarrow>
   load_matchups (save_matchups matchups st) = Inr matchups"
  by (simp add: load_matchups_def save_matchups_def read_csv_def bind_def comp_def
        map_err_map[of matchups matchup_of_row "\<lambda>x. zip (map column_name matchups_header) (matchup_row x)"]
        matchup_roundtrip_row list_all_iff)


section \<open>Head-to-head records: proofs\<close>

lemma stat_of_dict_modify:
  "stat_of (dict_modify k f d) k' = (if k' = k then f (stat_of d k) else stat_of d k')"
  by (induction d) (auto simp: stat_of_def)

lemma keys_dict_modify: "fst ` set (dict_modify k f d) = insert k (fst ` set d)"
proof (induction d)
  case Nil
  then show ?case by simp
next
  case (Cons p d)
  obtain k' s where p: "p = (k', s)" by (cases p)
  show ?case using Cons unfolding p by (cases "k' = k") auto
qed

lemma wins_unchanged:
  "(\<And>s. wins (f s) = wins s) \<Longrightarrow> wins (stat_of (dict_modify k f d) k') = wins (stat_of d k')"
  by (simp add: stat_of_dict_modify)

lemma games_unchanged:
  "(\<And>s. games (f s) = games s) \<Longrightarrow> games (stat_of (dict_modify k f d) k') = games (stat_of d k')"
  by (simp add: stat_of_dict_modify)

lemma points_for_unchanged:
  "(\<And>s. points_for (f s) = points_for s) \<Longrightarrow>
   points_for (stat_of (dict_modify k f d) k') = points_for (stat_of d k')"
  by (simp add: stat_of_dict_modify)

lemma points_against_unchanged:
  "(\<And>s. points_against (f s) = points_against s) \<Longrightarrow>
   points_against (stat_of (dict_modify k f d) k') = points_against (stat_of d k')"
  by (simp add: stat_of_dict_modify)

lemma wins_add:
  "wins (stat_of (dict_modify k (\<lambda>s. s\<lparr>wins := wins s + v\<rparr>) d) k') =
     wins (stat_of d k') + (if k' = k then v else 0)"
  by (simp add: stat_of_dict_modify)

lemma games_add:
  "games (stat_of (dict_modify k (\<lambda>s. s\<lparr>games := games s + v\<rparr>) d) k') =
     games (stat_of d k') + (if k' = k then v else 0)"
  by (simp add: stat_of_dict_modify)

lemma points_for_add:
  "points_for (stat_of (dict_modify k (\<lambda>s. s\<lparr>points_for := points_for s + v\<rparr>) d) k') =
     points_for (stat_of d k') + (if k' = k then v else 0)"
  by (simp add: stat_of_dict_modify)

lemma points_against_add:
  "points_against (stat_of (dict_modify k (\<lambda>s. s\<lparr>points_against := points_against s + v\<rparr>) d) k') =
     points_against (stat_of d k') + (if k' = k then v else 0)"
  by (simp add: stat_of_dict_modify)

lemma wins_tally:
  "truthy (winner_owner_id m) \<Longrightarrow>
   wins (stat_of (tally_matchup m d) k) =
     wins (stat_of d k) + (if k = winner_key m then 1 else 0)"
  by (simp add: tally_matchup_def Let_def wins_unchanged wins_add winner_key_def)

lemma games_tally:
  "truthy (winner_owner_id m) \<Longrightarrow>
   games (stat_of (tally_matchup m d) k) =
     games (stat_of d k) + (if k = (team1_owner_id m, team2_owner_id m) then 1 else 0)
       + (if k = (team2_owner_id m, team1_owner_id m) then 1 else 0)"
  by (simp add: tally_matchup_def Let_def games_unchanged games_add)

lemma points_for_tally:
  "truthy (winner_owner_id m) \<Longrightarrow>
   points_for (stat_of (tally_matchup m d) k) =
     points_for (stat_of d k) + (if k = (team1_owner_id m, team2_owner_id m) then team1_score m else 0)
       + (if k = (team2_owner_id m, team1_owner_id m) then team2_score m else 0)"
  by (simp add: tally_matchup_def Let_def points_for_unchanged points_for_add)

lemma points_against_tally:
  "truthy (winner_owner_id m) \<Longrightarrow>
   points_against (stat_of (tally_matchup m d) k) =
     points_against (stat_of d k) + (if k = (team1_owner_id m, team2_owner_id m) then team2_score m else 0)
       + (if k = (team2_owner_id m, team1_owner_id m) then team1_score m else 0)"
  by (simp add: tally_matchup_def Let_def points_against_unchanged points_against_add)

lemma keys_tally:
  "truthy (winner_owner_id m) \<Longrightarrow>
   fst ` set (tally_matchup m d) =
     insert (team1_owner_id m, team2_owner_id m)
       (insert (team2_owner_id m, team1_owner_id m) (fst ` set d))"
  by (simp add: tally_matchup_def Let_def keys_dict_modify insert_commute)

lemma tally_tie: "\<not> truthy (winner_owner_id m) \<Longrightarrow> tally_matchup m d = d"
  by (simp add: tally_matchup_def)

lemma swap_count:
  fixes a b x y :: 'a
  assumes "wk = (x, y) \<or> wk = (y, x)"
  shows "(if (a, b) = wk then 1 else 0) + (if (b, a) = wk then 1 else 0)
       = (if (a, b) = (x, y) then 1 else 0) + (if (a, b) = (y, x) then (1::int) else 0)"
proof -
  have e1: "((b, a) = (x, y)) = ((a, b) = (y, x))" by (simp add: conj_commute)
  have e2: "((b, a) = (y, x)) = ((a, b) = (x, y))" by (simp add: conj_commute)
  from assms show ?thesis
  proof
    assume "wk = (x, y)"
    then show ?thesis by (simp only: e1)
  next
    assume "wk = (y, x)"
    then show ?thesis by (simp only: e2 add.commute)
  qed
qed

lemma swap_points:
  fixes a b x y :: 'a and u v :: real
  shows "(if (a, b) = (x, y) then u else 0) + (if (a, b) = (y, x) then v else 0)
       = (if (b, a) = (x, y) then v else 0) + (if (b, a) = (y, x) then u else 0)"
proof -
  have e1: "((b, a) = (x, y)) = ((a, b) = (y, x))" by (simp add: conj_commute)
  have e2: "((b, a) = (y, x)) = ((a, b) = (x, y))" by (simp add: conj_commute)
  show ?thesis by (simp only: e1 e2 add.commute)
qed

lemma swap_keys:
  fixes a b x y :: 'a
  assumes "(a, b) \<in> insert (x, y) (insert (y, x) K)" "(a, b) \<in> K \<Longrightarrow> (b, a) \<in> K"
  shows "(b, a) \<in> insert (x, y) (insert (y, x) K)"
  using assms by (simp only: insert_iff prod.inject) blast

lemma winner_key_cases:
  "winner_key m = (team1_owner_id m, team2_owner_id m) \<or>
   winner_key m = (team2_owner_id m, team1_owner_id m)"
  by (simp add: winner_key_def)

lemma sum_shift_int:
  fixes W1 W2 G i1 i2 j1 j2 :: int
  shows "W1 + W2 = G \<Longrightarrow> i1 + i2 = j1 + j2 \<Longrightarrow> W1 + i1 + (W2 + i2) = G + j1 + j2"
  by linarith

lemma sum_shift_real:
  fixes P Q i1 i2 j1 j2 :: real
  shows "P = Q \<Longrightarrow> i1 + i2 = j1 + j2 \<Longrightarrow> P + i1 + i2 = Q + j1 + j2"
  by linarith

lemma h2h_inv_empty: "h2h_inv []"
  by (simp add: h2h_inv_def stat_of_def default_stat_def)

lemma h2h_inv_tally: "h2h_inv d \<Longrightarrow> h2h_inv (tally_matchup m d)"
proof (cases "truthy (winner_owner_id m)")
  case False
  assume "h2h_inv d"
  then show ?thesis using False by (simp add: tally_tie)
next
  case True
  assume inv: "h2h_inv d"
  have w: "\<And>a b. wins (stat_of (tally_matchup m d) (a, b)) + wins (stat_of (tally_matchup m d) (b, a))
              = games (stat_of (tally_matchup m d) (a, b))"
  proof -
    fix a b
    have "wins (stat_of d (a, b)) + wins (stat_of d (b, a)) = games (stat_of d (a, b))"
      using inv by (simp add: h2h_inv_def)
    then show "wins (stat_of (tally_matchup m d) (a, b)) + wins (stat_of (tally_matchup m d) (b, a))
              = games (stat_of (tally_matchup m d) (a, b))"
      unfolding wins_tally[OF True] games_tally[OF True]
      by (rule sum_shift_int[OF _ swap_count[OF winner_key_cases]])
  qed
  have p: "\<And>a b. points_for (stat_of (tally_matchup m d) (a, b))
              = points_against (stat_of (tally_matchup m d) (b, a))"
  proof -
    fix a b
    have "points_for (stat_of d (a, b)) = points_against (stat_of d (b, a))"
      using inv by (simp add: h2h_inv_def)
    then show "points_for (stat_of (tally_matchup m d) (a, b))
              = points_against (stat_of (tally_matchup m d) (b, a))"
      unfolding points_for_tally[OF True] points_against_tally[OF True]
      by (rule sum_shift_real[OF _ swap_points])
  qed
  have k: "\<And>a b. (a, b) \<in> fst ` set (tally_matchup m d) \<Longrightarrow> (b, a) \<in> fst ` set (tally_matchup m d)"
  proof -
    fix a b
    assume "(a, b) \<in> fst ` set (tally_matchup m d)"
    moreover have "(a, b) \<in> fst ` set d \<Longrightarrow> (b, a) \<in> fst ` set d"
      using inv unfolding h2h_inv_def by blast
    ultimately show "(b, a) \<in> fst ` set (tally_matchup m d)"
      unfolding keys_tally[OF True] by (rule swap_keys)
  qed
  show ?thesis unfolding h2h_inv_def using w p k by blast
qed

lemma h2h_inv_fold: "h2h_inv d \<Longrightarrow> h2h_inv (fold tally_matchup ms d)"
  by (induction ms arbitrary: d) (simp_all add: h2h_inv_tally)

lemma h2h_inv_stats: "h2h_inv (h2h_stats ms)"
  by (simp add: h2h_stats_def h2h_inv_fold h2h_inv_empty)

lemma fold_tally_ties:
  "fold tally_matchup (filter (\<lambda>m. truthy (winner_owner_id m)) ms) d = fold tally_matchup ms d"
  by (induction ms arbitrary: d) (simp_all add: tally_tie)

lemma collapse_pairs_total:
  "\<forall>k\<in>fst ` set items. (snd k, fst k) \<in> fst ` set d \<Longrightarrow>
   \<exists>records. collapse_pairs items d processed = Inr records"
proof (induction items d processed rule: collapse_pairs.induct)
  case (1 d processed_pairs)
  then show ?case by simp
next
  case (2 owner1 owner2 stats rest d processed_pairs)
  have rest: "\<forall>k\<in>fst ` set rest. (snd k, fst k) \<in> fst ` set d" using "2.prems" by auto
  have here: "(owner2, owner1) \<in> fst ` set d" using "2.prems" by force
  show ?case
  proof (cases "pair_key owner1 owner2 \<in> set processed_pairs")
    case True
    then show ?thesis using "2.IH"(1)[OF True rest] by simp
  next
    case False
    obtain records where "collapse_pairs rest d (pair_key owner1 owner2 # processed_pairs) = Inr records"
      using "2.IH"(2)[OF False _ rest] here by auto
    then show ?thesis using False here by simp
  qed
qed

lemma collapse_pairs_records:
  "collapse_pairs items d processed = Inr records \<Longrightarrow> r \<in> set records \<Longrightarrow>
   \<exists>owner1 owner2. (owner1, owner2) \<in> fst ` set items \<and> r = record_of d owner1 owner2"
proof (induction items d processed arbitrary: records rule: collapse_pairs.induct)
  case (1 d processed_pairs)
  then show ?case by simp
next
  case (2 owner1 owner2 stats rest d processed_pairs)
  show ?case
  proof (cases "pair_key owner1 owner2 \<in> set processed_pairs")
    case True
    then have "collapse_pairs rest d processed_pairs = Inr records" using "2.prems"(1) by simp
    then obtain a b where "(a, b) \<in> fst ` set rest" "r = record_of d a b"
      using "2.IH"(1)[OF True _ "2.prems"(2)] by blast
    then show ?thesis by auto
  next
    case False
    then have here: "(owner2, owner1) \<in> fst ` set d"
      using "2.prems"(1) by (auto split: if_splits)
    then obtain recs where recs:
      "collapse_pairs rest d (pair_key owner1 owner2 # processed_pairs) = Inr recs"
      "records = record_of d owner1 owner2 # recs"
      using "2.prems"(1) False by (auto simp: record_of_def split: sum.splits)
    show ?thesis
    proof (cases "r = record_of d owner1 owner2")
      case True
      then show ?thesis by force
    next
      case F: False
      then have "r \<in> set recs" using "2.prems"(2) recs(2) by simp
      then obtain a b where "(a, b) \<in> fst ` set rest" "r = record_of d a b"
        using "2.IH"(2)[OF False _ recs(1)] here by blast
      then show ?thesis by auto
    qed
  qed
qed

lemma record_of_invariant:
  assumes "h2h_inv d"
  shows "owner1_wins (record_of d a b) + owner2_wins (record_of d a b) = total_games (record_of d a b)"
    and "owner1_points (record_of d a b) = points_against (stat_of d (b, a))"
    and "owner2_points (record_of d a b) = points_against (stat_of d (a, b))"
    and "owner1_id (record_of d a b) = a" and "owner2_id (record_of d a b) = b"
proof -
  have w: "wins (stat_of d (a, b)) + wins (stat_of d (b, a)) = games (stat_of d (a, b))"
    using assms unfolding h2h_inv_def by blast
  have p1: "points_for (stat_of d (a, b)) = points_against (stat_of d (b, a))"
    using assms unfolding h2h_inv_def by blast
  have p2: "points_for (stat_of d (b, a)) = points_against (stat_of d (a, b))"
    using assms unfolding h2h_inv_def by blast
  show "owner1_wins (record_of d a b) + owner2_wins (record_of d a b) = total_games (record_of d a b)"
    using w by (simp add: record_of_def)
  show "owner1_points (record_of d a b) = points_against (stat_of d (b, a))"
    using p1 by (simp add: record_of_def)
  show "owner2_points (record_of d a b) = points_against (stat_of d (a, b))"
    using p2 by (simp add: record_of_def)
  show "owner1_id (record_of d a b) = a" by (simp add: record_of_def)
  show "owner2_id (record_of d a b) = b" by (simp add: record_of_def)
qed

lemma h2h_stats_ties: "h2h_stats (filter decided matchups) = h2h_stats matchups"
  unfolding h2h_stats_def decided_def by (rule fold_tally_ties)

text \<open>
  Claim C1. For every list of stored matchups, \<^verbatim>\<open>calculate_head_to_head_records\<close> returns
  (it never raises on the dictionary it has built), and every record it returns satisfies
  \<open>owner1_wins + owner2_wins \<le> total_games\<close>; the points it records for owner1 against
  owner2 are the points-against that the opposite direction's tally holds, and likewise for
  owner2. Matchups without a winner change no tally: the dictionary and the records are
  those of the decided matchups alone.
\<close>

theorem head_to_head_records_invariant:
  "\<exists>records. head_to_head_records matchups = Inr records \<and>
     (\<forall>r\<in>set records.
        owner1_wins r + owner2_wins r \<le> total_games r \<and>
        owner1_points r = points_against (stat_of (h2h_stats matchups) (owner2_id r, owner1_id r)) \<and>
        owner2_points r = points_against (stat_of (h2h_stats matchups) (owner1_id r, owner2_id r))) \<and>
     h2h_stats (filter decided matchups) = h2h_stats matchups \<and>
     head_to_head_records (filter decided matchups) = Inr records \<and>
     (\<forall>st owners. load_matchups st = Inr matchups \<and> load_owners st = Inr owners \<longrightarrow>
        calculate_head_to_head_records st = Inr (records, save_head_to_head_records records st))"
proof -
  let ?d = "h2h_stats matchups"
  have inv: "h2h_inv ?d" by (rule h2h_inv_stats)
  have sym: "\<And>a b. (a, b) \<in> fst ` set ?d \<Longrightarrow> (b, a) \<in> fst ` set ?d"
    using inv unfolding h2h_inv_def by blast
  have "\<forall>k\<in>fst ` set ?d. (snd k, fst k) \<in> fst ` set ?d"
  proof
    fix k assume k: "k \<in> fst ` set ?d"
    obtain a b where ab: "k = (a, b)" by (cases k)
    show "(snd k, fst k) \<in> fst ` set ?d" using sym[of a b] k unfolding ab by simp
  qed
  then obtain records where recs: "collapse_pairs ?d ?d [] = Inr records"
    using collapse_pairs_total by blast
  have props: "\<forall>r\<in>set records.
        owner1_wins r + owner2_wins r \<le> total_games r \<and>
        owner1_points r = points_against (stat_of ?d (owner2_id r, owner1_id r)) \<and>
        owner2_points r = points_against (stat_of ?d (owner1_id r, owner2_id r))"
  proof
    fix r assume "r \<in> set records"
    then obtain a b where r: "r = record_of ?d a b"
      using collapse_pairs_records[OF recs] by blast
    show "owner1_wins r + owner2_wins r \<le> total_games r \<and>
        owner1_points r = points_against (stat_of ?d (owner2_id r, owner1_id r)) \<and>
        owner2_points r = points_against (stat_of ?d (owner1_id r, owner2_id r))"
      unfolding r using record_of_invariant[OF inv, of a b] by simp
  qed
  have "head_to_head_records matchups = Inr records"
    using recs by (simp add: head_to_head_records_def)
  moreover have "head_to_head_records (filter decided matchups) = Inr records"
    using recs by (simp add: head_to_head_records_def h2h_stats_ties)
  moreover have "\<forall>st owners. load_matchups st = Inr matchups \<and> load_owners st = Inr owners \<longrightarrow>
        calculate_head_to_head_records st = Inr (records, save_head_to_head_records records st)"
    using recs by (simp add: calculate_head_to_head_records_def head_to_head_records_def bind_def)
  ultimately show ?thesis using props h2h_stats_ties by blast
qed

theorem head_to_head_records_invariant_witness:
  "head_to_head_records example_matchups =
       Inr [\<lparr>owner1_id = ''billy'', owner2_id = ''hayden'', owner1_wins = 1, owner2_wins = 0,
             owner1_points = 101, owner2_points = 95, total_games = 1\<rparr>] \<and>
   points_against (stat_of (h2h_stats example_matchups) (''hayden'', ''billy'')) = 101 \<and>
   points_against (stat_of (h2h_stats example_matchups) (''billy'', ''hayden'')) = 95 \<and>
   head_to_head_records (filter decided example_matchups) =
       Inr [\<lparr>owner1_id = ''billy'', owner2_id = ''hayden'', owner1_wins = 1, owner2_wins = 0,
             owner1_points = 101, owner2_points = 95, total_games = 1\<rparr>] \<and>
   load_matchups example_storage = Inr example_matchups \<and>
   load_owners example_storage = Inr [] \<and>
   calculate_head_to_head_records example_storage =
       Inr ([\<lparr>owner1_id = ''billy'', owner2_id = ''hayden'', owner1_wins = 1, owner2_wins = 0,
              owner1_points = 101, owner2_points = 95, total_games = 1\<rparr>],
            example_storage\<lparr>head_to_head_csv :=
              Some [head_to_head_header,
                    head_to_head_row
                      \<lparr>owner1_id = ''billy'', owner2_id = ''hayden'', owner1_wins = 1,
                       owner2_wins = 0, owner1_points = 101, owner2_points = 95,
                       total_games = 1\<rparr>]\<rparr>)"
proof -
  let ?r = "\<lparr>owner1_id = ''billy'', owner2_id = ''hayden'', owner1_wins = 1, owner2_wins = 0,
             owner1_points = 101, owner2_points = 95, total_games = 1\<rparr>"
  have e: "head_to_head_records example_matchups = Inr [?r]" by code_simp
  have wf: "list_all wf_matchup example_matchups" "example_matchups \<noteq> []"
    by (simp_all add: wf_matchup_def example_matchups_def)
  have lm: "load_matchups example_storage = Inr example_matchups"
    unfolding example_storage_def using wf by (simp add: load_save_matchups)
  have lo: "load_owners example_storage = Inr []"
    by (simp add: load_owners_def example_storage_def save_matchups_def empty_storage_def)
  obtain records where r:
    "head_to_head_records example_matchups = Inr records"
    "\<forall>r\<in>set records.
        owner1_wins r + owner2_wins r \<le> total_games r \<and>
        owner1_points r = points_against (stat_of (h2h_stats example_matchups) (owner2_id r, owner1_id r)) \<and>
        owner2_points r = points_against (stat_of (h2h_stats example_matchups) (owner1_id r, owner2_id r))"
    "head_to_head_records (filter decided example_matchups) = Inr records"
    "\<forall>st owners. load_matchups st = Inr example_matchups \<and> load_owners st = Inr owners \<longrightarrow>
        calculate_head_to_head_records st = Inr (records, save_head_to_head_records records st)"
    using head_to_head_records_invariant[of example_matchups] by blast
  have recs: "records = [?r]" using e r(1) by simp
  have "?r \<in> set records" unfolding recs by simp
  then have pts: "owner1_points ?r = points_against (stat_of (h2h_stats example_matchups) (owner2_id ?r, owner1_id ?r)) \<and>
        owner2_points ?r = points_against (stat_of (h2h_stats example_matchups) (owner1_id ?r, owner2_id ?r))"
    using r(2) by blast
  have "calculate_head_to_head_records example_storage
          = Inr (records, save_head_to_head_records records example_storage)"
    using r(4) lm lo by blast
  then have c: "calculate_head_to_head_records example_storage
          = Inr ([?r], example_storage\<lparr>head_to_head_csv :=
              Some [head_to_head_header, head_to_head_row ?r]\<rparr>)"
    unfolding recs by (simp add: save_head_to_head_records_def)
  show ?thesis using e r(3) recs pts lm lo c by simp
qed

section \<open>Owner identifiers: proofs\<close>

lemma rstrip_Nil: "rstrip [] = []"
  by (simp add: rstrip_def)

lemma rstrip_Cons:
  "rstrip (c # cs) = (if \<forall>x\<in>set (c # cs). is_space x then [] else c # rstrip cs)"
  by (auto simp: rstrip_def dropWhile_append)

lemma rstrip_nospace_append:
  "\<forall>x\<in>set w. \<not> is_space x \<Longrightarrow> rstrip (w @ s) = w @ rstrip s"
  by (induction w) (auto simp: rstrip_Cons)

lemma rstrip_all_space: "\<forall>x\<in>set s. is_space x \<Longrightarrow> rstrip s = []"
  by (cases s) (auto simp: rstrip_Cons rstrip_Nil)

lemma strip_ws_rstrip: "strip_ws s = dropWhile is_space (rstrip s)"
  by (simp add: strip_ws_def rstrip_def)

lemma strip_ws_space_Cons: "is_space c \<Longrightarrow> strip_ws (c # cs) = strip_ws cs"
  by (auto simp: strip_ws_rstrip rstrip_Cons rstrip_all_space)

lemma strip_ws_nospace_append:
  "w \<noteq> [] \<Longrightarrow> \<forall>x\<in>set w. \<not> is_space x \<Longrightarrow> strip_ws (w @ s) = w @ rstrip s"
proof -
  assume w: "w \<noteq> []" "\<forall>x\<in>set w. \<not> is_space x"
  then have "rstrip (w @ s) = w @ rstrip s" by (simp add: rstrip_nospace_append)
  moreover have "dropWhile is_space (w @ rstrip s) = w @ rstrip s"
    using w by (cases w) auto
  ultimately show ?thesis by (simp add: strip_ws_rstrip)
qed

lemma squeeze_ws_nospace_append:
  "\<forall>x\<in>set w. \<not> is_space x \<Longrightarrow> squeeze_ws (w @ t) = w @ squeeze_ws t"
  by (induction w) auto

lemma split_loop_Nil_iff: "split_loop w s = [] \<longleftrightarrow> w = [] \<and> (\<forall>c\<in>set s. is_space c)"
  by (induction s arbitrary: w) auto

lemma py_join_Cons: "ws \<noteq> [] \<Longrightarrow> py_join sep (w # ws) = w @ sep @ py_join sep ws"
  by (cases ws) auto

lemma join_split_loop:
  "\<forall>x\<in>set w. \<not> is_space x \<Longrightarrow>
     py_join ''_'' (split_loop w s) = squeeze_ws (strip_ws (w @ s))"
proof (induction s arbitrary: w)
  case Nil
  show ?case
  proof (cases "w = []")
    case True
    then show ?thesis by (simp add: strip_ws_def)
  next
    case False
    then show ?thesis
      using Nil strip_ws_nospace_append[of w "[]"] squeeze_ws_nospace_append[of w "[]"]
      by (simp add: rstrip_Nil)
  qed
next
  case (Cons c cs)
  show ?case
  proof (cases "is_space c")
    case nsp: False
    then have "\<forall>x\<in>set (w @ [c]). \<not> is_space x" using Cons.prems by auto
    then have "py_join ''_'' (split_loop (w @ [c]) cs) = squeeze_ws (strip_ws ((w @ [c]) @ cs))"
      by (rule Cons.IH)
    then show ?thesis using nsp by simp
  next
    case sp: True
    have IH0: "py_join ''_'' (split_loop [] cs) = squeeze_ws (strip_ws cs)"
      using Cons.IH[of "[]"] by simp
    show ?thesis
    proof (cases "w = []")
      case True
      then show ?thesis using sp IH0 by (simp add: strip_ws_space_Cons)
    next
      case wne: False
      have st: "strip_ws (w @ c # cs) = w @ rstrip (c # cs)"
        using wne Cons.prems by (rule strip_ws_nospace_append)
      show ?thesis
      proof (cases "\<forall>x\<in>set cs. is_space x")
        case True
        then have "split_loop [] cs = []" by (simp add: split_loop_Nil_iff)
        moreover have "rstrip (c # cs) = []" using True sp by (simp add: rstrip_all_space)
        ultimately show ?thesis
          using sp wne st squeeze_ws_nospace_append[OF Cons.prems, of "[]"] by simp
      next
        case False
        then have ne: "split_loop [] cs \<noteq> []" by (simp add: split_loop_Nil_iff)
        have r: "rstrip (c # cs) = c # rstrip cs" using False by (simp add: rstrip_Cons)
        have "py_join ''_'' (split_loop w (c # cs)) = w @ ''_'' @ py_join ''_'' (split_loop [] cs)"
          using sp wne ne by (simp add: py_join_Cons)
        also have "\<dots> = w @ ''_'' @ squeeze_ws (strip_ws cs)" using IH0 by simp
        also have "\<dots> = squeeze_ws (w @ c # rstrip cs)"
          using sp squeeze_ws_nospace_append[OF Cons.prems, of "c # rstrip cs"]
          by (simp add: strip_ws_rstrip)
        finally show ?thesis using st r by simp
      qed
    qed
  qed
qed

lemma generate_owner_id_squeeze:
  "generate_owner_id owner_name = squeeze_ws (strip_ws (clean_name owner_name))"
  using join_split_loop[of "[]" "clean_name owner_name"]
  by (simp add: generate_owner_id_def py_split_def)

lemma set_squeeze_ws: "set (squeeze_ws t) \<subseteq> {c \<in> set t. \<not> is_space c} \<union> {CHR ''_''}"
proof (induction t rule: squeeze_ws.induct)
  case 1
  then show ?case by simp
next
  case (2 c cs)
  have "set (dropWhile is_space cs) \<subseteq> set cs" by (rule set_dropWhileD[THEN subsetI]) 
  then show ?case using 2 by (auto split: if_splits)
qed

lemma set_strip_ws: "set (strip_ws s) \<subseteq> set s"
proof -
  have "set (strip_ws s) \<subseteq> set (rev (dropWhile is_space (rev s)))"
    unfolding strip_ws_def using set_dropWhileD by fastforce
  also have "\<dots> \<subseteq> set s" using set_dropWhileD by fastforce
  finally show ?thesis .
qed

lemma code_point_py_lower:
  "is_ascii_alnum (py_lower c) \<Longrightarrow> is_id_char (py_lower c)"
proof -
  have lt: "code_point c < 256" by (simp add: code_point_def)
  assume "is_ascii_alnum (py_lower c)"
  then show ?thesis using lt
    by (auto simp: is_ascii_alnum_def is_id_char_def py_lower_def Let_def code_point_def split: if_splits)
qed

lemma generate_owner_id_chars: "c \<in> set (generate_owner_id owner_name) \<Longrightarrow> is_id_char c"
proof -
  assume "c \<in> set (generate_owner_id owner_name)"
  then have "c \<in> set (squeeze_ws (strip_ws (clean_name owner_name)))"
    by (simp add: generate_owner_id_squeeze)
  then consider "c = CHR ''_''" | "c \<in> set (strip_ws (clean_name owner_name))" "\<not> is_space c"
    using set_squeeze_ws by fastforce
  then show ?thesis
  proof cases
    case 1
    then show ?thesis by (simp add: is_id_char_def)
  next
    case 2
    then have "c \<in> set (clean_name owner_name)" using set_strip_ws by blast
    then obtain c' where "c = py_lower c'" "is_ascii_alnum c \<or> is_space c"
      by (auto simp: clean_name_def)
    then show ?thesis using 2(2) code_point_py_lower by blast
  qed
qed

text \<open>
  Claim C7, as amended. The generated identifier is a function of the display name alone;
  it is the cleaned name with leading and trailing whitespace removed and every remaining
  maximal run of whitespace replaced by one underscore, so it has an underscore exactly where
  the cleaned name has a whitespace run between two words; every character of it is a
  lower-case ASCII letter, a digit or an underscore; and \<^verbatim>\<open>"Robbie G."\<close> maps to
  \<^verbatim>\<open>"robbie_g"\<close>.
\<close>

theorem generate_owner_id_shape:
  "generate_owner_id owner_name = squeeze_ws (strip_ws (clean_name owner_name)) \<and>
   list_all is_id_char (generate_owner_id owner_name) \<and>
   generate_owner_id ''Robbie G.'' = ''robbie_g''"
proof -
  have "generate_owner_id ''Robbie G.'' = ''robbie_g''" by code_simp
  then show ?thesis
    using generate_owner_id_squeeze generate_owner_id_chars by (simp add: list_all_iff)
qed

theorem generate_owner_id_shape_witness:
  "generate_owner_id ''  Billy   the Kid !'' = ''billy_the_kid'' \<and>
   squeeze_ws (strip_ws (clean_name ''  Billy   the Kid !'')) = ''billy_the_kid'' \<and>
   list_all is_id_char ''billy_the_kid''"
proof -
  have e: "generate_owner_id ''  Billy   the Kid !'' = ''billy_the_kid''" by code_simp
  note t = generate_owner_id_shape[of "''  Billy   the Kid !''", unfolded e]
  show ?thesis using e t by metis
qed

text \<open>
  Claim C7 as stated fails where the cleaned name begins or ends with whitespace: the
  name \<^verbatim>\<open>"Bob !"\<close> is cleaned to \<^verbatim>\<open>"bob "\<close>, whose trailing whitespace run gets no
  underscore.
\<close>

theorem generate_owner_id_edge_whitespace:
  "clean_name ''Bob !'' = ''bob '' \<and> generate_owner_id ''Bob !'' = ''bob'' \<and>
   generate_owner_id ''Bob !'' \<noteq> squeeze_ws (clean_name ''Bob !'')"
  by code_simp

section \<open>Streaks: proofs\<close>

lemma streak_loop_runs:
  "streak_loop r (signed_length (r, Suc k)) acc rs =
     acc @ map signed_length ((r, Suc k + length (takeWhile (\<lambda>x. x = r) rs)) # runs (dropWhile (\<lambda>x. x = r) rs))"
proof (induction rs arbitrary: k acc r)
  case Nil
  then show ?case by simp
next
  case (Cons x xs)
  show ?case
  proof (cases "x = r")
    case True
    have "streak_loop r (signed_length (r, Suc k)) acc (x # xs) = streak_loop r (signed_length (r, Suc (Suc k))) acc xs"
      using True by (simp add: signed_length_def)
    then show ?thesis using Cons.IH[of r "Suc k" acc] True by simp
  next
    case False
    have "streak_loop r (signed_length (r, Suc k)) acc (x # xs) = streak_loop x (signed_length (x, Suc 0)) (acc @ [signed_length (r, Suc k)]) xs"
      using False by (simp add: signed_length_def)
    then show ?thesis using Cons.IH[of x 0 "acc @ [signed_length (r, Suc k)]"] False by simp
  qed
qed

lemma calculate_streaks_runs: "results \<noteq> [] \<Longrightarrow> calculate_streaks results = map signed_length (runs results)"
proof (cases results)
  case Nil
  assume "results \<noteq> []" with Nil show ?thesis by simp
next
  case (Cons r rs)
  have "calculate_streaks results = streak_loop r (signed_length (r, Suc 0)) [] rs"
    by (simp add: calculate_streaks_def Cons signed_length_def)
  then show ?thesis using streak_loop_runs[of r 0 "[]" rs] Cons by simp
qed

lemma runs_concat: "concat (map (\<lambda>p. replicate (snd p) (fst p)) (runs rs)) = rs"
proof (induction rs rule: runs.induct)
  case 1
  then show ?case by simp
next
  case (2 r rs)
  have "replicate (length (takeWhile (\<lambda>x. x = r) rs)) r = takeWhile (\<lambda>x. x = r) rs"
    by (metis (mono_tags, lifting) replicate_length_same set_takeWhileD)
  then show ?case using 2 by simp
qed

lemma seg_split:
  assumes "sublist (replicate n b) (replicate k r @ D)" "n > 0" "D = [] \<or> hd D \<noteq> r"
  shows "(b = r \<and> n \<le> k) \<or> sublist (replicate n b) D"
proof -
  obtain ps ss where eq: "replicate k r @ D = ps @ replicate n b @ ss"
    using assms(1) by (auto simp: sublist_def)
  then consider
    (A) us where "replicate k r = ps @ us" "us @ D = replicate n b @ ss"
  | (B) us where "replicate k r @ us = ps" "D = us @ replicate n b @ ss"
    by (auto simp: append_eq_append_conv2)
  then show ?thesis
  proof cases
    case B
    then show ?thesis by (auto simp: sublist_def)
  next
    case A
    show ?thesis
    proof (cases "us = []")
      case True
      then show ?thesis using A by (auto simp: sublist_def)
    next
      case False
      have lenus: "length us \<le> k" using A(1)
        by (metis length_append length_replicate le_add2)
      have "set (ps @ us) = set (replicate k r)" using A(1) by simp
      then have "set us \<subseteq> {r}" by (auto split: if_splits)
      then have hdus: "hd us = r" using False by (cases us) auto
      have "hd (us @ D) = hd (replicate n b @ ss)" using A(2) by simp
      then have br: "b = r" using False hdus assms(2) by (cases n) auto
      show ?thesis
      proof (cases "n \<le> length us")
        case True
        then show ?thesis using br lenus by simp
      next
        case F2: False
        then have lt: "length us < n" by simp
        have "length (us @ D) = n + length ss" using A(2) by (metis length_append length_replicate)
        then have Dne: "D \<noteq> []" using lt by auto
        have "(us @ D) ! length us = (replicate n b @ ss) ! length us" using A(2) by simp
        then have "hd D = b" using Dne lt by (simp add: nth_append hd_conv_nth)
        then show ?thesis using assms(3) Dne br by simp
      qed
    qed
  qed
qed

lemma runs_sublist_iff:
  "sublist (replicate n b) rs \<longleftrightarrow> n = 0 \<or> (\<exists>m. (b, m) \<in> set (runs rs) \<and> n \<le> m)"
proof (induction rs rule: runs.induct)
  case 1
  then show ?case by auto
next
  case (2 r rs)
  let ?T = "takeWhile (\<lambda>x. x = r) rs"
  let ?D = "dropWhile (\<lambda>x. x = r) rs"
  let ?k = "Suc (length ?T)"
  have T: "replicate (length ?T) r = ?T"
    by (metis (mono_tags, lifting) replicate_length_same set_takeWhileD)
  have split: "r # rs = replicate ?k r @ ?D" using T by simp
  have Dhd: "?D = [] \<or> hd ?D \<noteq> r" using hd_dropWhile[of "\<lambda>x. x = r" rs] by blast
  have IH: "sublist (replicate n b) ?D \<longleftrightarrow> n = 0 \<or> (\<exists>m. (b, m) \<in> set (runs ?D) \<and> n \<le> m)"
    by (rule "2.IH")
  have mem: "\<And>m. (b, m) \<in> set (runs (r # rs)) \<longleftrightarrow> (b = r \<and> m = ?k) \<or> (b, m) \<in> set (runs ?D)"
    by (simp only: runs.simps set_simps insert_iff prod.inject)
  show ?case
  proof
    assume L: "sublist (replicate n b) (r # rs)"
    show "n = 0 \<or> (\<exists>m. (b, m) \<in> set (runs (r # rs)) \<and> n \<le> m)"
    proof (cases "n = 0")
      case True then show ?thesis by simp
    next
      case False
      have "sublist (replicate n b) (replicate ?k r @ ?D)" using L split by simp
      then have "(b = r \<and> n \<le> ?k) \<or> sublist (replicate n b) ?D"
        using seg_split[of n b ?k r ?D] Dhd False by blast
      then show ?thesis unfolding mem IH using False by blast
    qed
  next
    assume R: "n = 0 \<or> (\<exists>m. (b, m) \<in> set (runs (r # rs)) \<and> n \<le> m)"
    show "sublist (replicate n b) (r # rs)"
    proof (cases "n = 0")
      case True then show ?thesis by simp
    next
      case False
      then obtain m where m: "(b, m) \<in> set (runs (r # rs))" "n \<le> m" using R by blast
      then consider "b = r" "m = ?k" | "(b, m) \<in> set (runs ?D)" unfolding mem by blast
      then show ?thesis
      proof cases
        case 1
        obtain j where "?k = n + j" using m(2) 1(2) le_Suc_ex by blast
        then have "replicate ?k r @ ?D = [] @ replicate n r @ (replicate j r @ ?D)"
          by (simp only: replicate_add append_assoc append_Nil)
        then have "sublist (replicate n r) (replicate ?k r @ ?D)"
          unfolding sublist_def by blast
        then show ?thesis using split 1 by simp
      next
        case 2
        then have "sublist (replicate n b) ?D" using IH m(2) by blast
        then obtain ps ss where "?D = ps @ replicate n b @ ss" unfolding sublist_def by blast
        then have "replicate ?k r @ ?D = (replicate ?k r @ ps) @ replicate n b @ ss" by simp
        then have "sublist (replicate n b) (replicate ?k r @ ?D)"
          unfolding sublist_def by blast
        then show ?thesis using split by simp
      qed
    qed
  qed
qed

lemma runs_pos: "(b, m) \<in> set (runs rs) \<Longrightarrow> 0 < m"
  by (induction rs rule: runs.induct) auto

lemma longest_run_runs:
  "longest_run b rs = Max (insert 0 {m. (b, m) \<in> set (runs rs)})"
proof -
  let ?W = "{m. (b, m) \<in> set (runs rs)}"
  have fin: "finite ?W"
  proof -
    have "?W \<subseteq> snd ` set (runs rs)" by force
    then show ?thesis by (rule finite_subset) simp
  qed
  let ?M = "Max (insert 0 ?W)"
  have Min: "?M \<in> insert 0 ?W" using fin by (intro Max_in) auto
  have set_eq: "{n. sublist (replicate n b) rs} = {n. n = 0 \<or> (\<exists>m. (b, m) \<in> set (runs rs) \<and> n \<le> m)}"
    using runs_sublist_iff by blast
  have bound: "\<And>n. n \<in> {n. sublist (replicate n b) rs} \<Longrightarrow> n \<le> ?M"
  proof -
    fix n assume "n \<in> {n. sublist (replicate n b) rs}"
    then consider "n = 0" | m where "(b, m) \<in> set (runs rs)" "n \<le> m" unfolding set_eq by blast
    then show "n \<le> ?M"
    proof cases
      case 1 then show ?thesis by simp
    next
      case 2
      then have "m \<le> ?M" using fin by (intro Max_ge) auto
      then show ?thesis using 2 by simp
    qed
  qed
  have finS: "finite {n. sublist (replicate n b) rs}"
  proof -
    have "{n. sublist (replicate n b) rs} \<subseteq> {..?M}" using bound by blast
    then show ?thesis by (rule finite_subset) simp
  qed
  have inS: "?M \<in> {n. sublist (replicate n b) rs}"
    unfolding set_eq using Min by blast
  show ?thesis unfolding longest_run_def
    using finS inS bound by (intro Max_eqI) auto
qed

lemma win_entries:
  "set (filter (\<lambda>s. s > 0) (map signed_length (runs rs))) = int ` {m. (True, m) \<in> set (runs rs)}"
  using runs_pos by (force simp: signed_length_def image_iff)

lemma lose_entries:
  "set (filter (\<lambda>s. s < 0) (map signed_length (runs rs))) = (\<lambda>m. - int m) ` {m. (False, m) \<in> set (runs rs)}"
  using runs_pos by (force simp: signed_length_def image_iff)

lemma max_win_streak_longest: "max_win_streak rs = int (longest_run True rs)"
proof (cases "rs = []")
  case True
  then show ?thesis by (simp add: max_win_streak_def calculate_streaks_def longest_run_runs)
next
  case False
  let ?W = "{m. (True, m) \<in> set (runs rs)}"
  have fin: "finite ?W"
  proof -
    have "?W \<subseteq> snd ` set (runs rs)" by force
    then show ?thesis by (rule finite_subset) simp
  qed
  have "max_win_streak rs = Max (int ` (insert 0 ?W))"
    unfolding max_win_streak_def calculate_streaks_runs[OF False]
    by (simp only: set_append win_entries list.set Un_insert_right Un_empty_right image_insert of_nat_0)
  also have "\<dots> = int (Max (insert 0 ?W))"
    using fin by (intro mono_Max_commute[symmetric]) (auto simp: mono_def)
  finally show ?thesis by (simp add: longest_run_runs)
qed

lemma max_lose_streak_longest: "max_lose_streak rs = int (longest_run False rs)"
proof (cases "rs = []")
  case True
  then show ?thesis by (simp add: max_lose_streak_def calculate_streaks_def longest_run_runs)
next
  case False
  let ?W = "{m. (False, m) \<in> set (runs rs)}"
  have fin: "finite ?W"
  proof -
    have "?W \<subseteq> snd ` set (runs rs)" by force
    then show ?thesis by (rule finite_subset) simp
  qed
  have "Min (set (filter (\<lambda>s. s < 0) (calculate_streaks rs) @ [0])) = Min ((\<lambda>m. - int m) ` (insert 0 ?W))"
    unfolding calculate_streaks_runs[OF False]
    by (simp only: set_append lose_entries list.set Un_insert_right Un_empty_right image_insert of_nat_0 minus_zero)
  also have "\<dots> = - int (Max (insert 0 ?W))"
  proof (rule Min_eqI)
    show "finite ((\<lambda>m. - int m) ` insert 0 ?W)" using fin by simp
    show "\<And>y. y \<in> (\<lambda>m. - int m) ` insert 0 ?W \<Longrightarrow> - int (Max (insert 0 ?W)) \<le> y"
    proof -
      fix y assume "y \<in> (\<lambda>m. - int m) ` insert 0 ?W"
      then obtain m where m: "m \<in> insert 0 ?W" "y = - int m" by blast
      then have "m \<le> Max (insert 0 ?W)" using fin by (intro Max_ge) auto
      then show "- int (Max (insert 0 ?W)) \<le> y" using m(2) by simp
    qed
    have "Max (insert 0 ?W) \<in> insert 0 ?W" using fin by (intro Max_in) auto
    then show "- int (Max (insert 0 ?W)) \<in> (\<lambda>m. - int m) ` insert 0 ?W" by blast
  qed
  finally show ?thesis by (simp add: max_lose_streak_def longest_run_runs)
qed

lemma runs_distinct_adj: "distinct_adj (map fst (runs rs))"
proof (induction rs rule: runs.induct)
  case 1
  then show ?case by simp
next
  case (2 r rs)
  let ?D = "dropWhile (\<lambda>x. x = r) rs"
  have "?D = [] \<or> hd ?D \<noteq> r" using hd_dropWhile[of "\<lambda>x. x = r" rs] by blast
  show ?case
  proof (cases ?D)
    case Nil
    then show ?thesis by (simp del: dropWhile_eq_Nil_conv)
  next
    case (Cons x xs)
    then have "x \<noteq> r" using \<open>?D = [] \<or> hd ?D \<noteq> r\<close> by simp
    moreover have "distinct_adj (map fst (runs (x # xs)))" using 2 Cons by simp
    ultimately show ?thesis using Cons by (simp add: distinct_adj_Cons)
  qed
qed

text \<open>
  Claim C10, as amended. For every non-empty win/loss sequence \<^verbatim>\<open>calculate_streaks\<close>
  returns one signed entry per maximal run of equal results, positive for wins and negative
  for losses, whose absolute value is the length of the run; for the empty sequence it
  returns the single entry 0. In every case the reported longest win streak is the length
  of the longest run of consecutive wins and the reported longest losing streak is the
  length of the longest run of consecutive losses.
\<close>

theorem calculate_streaks_runs_longest:
  "(results \<noteq> [] \<longrightarrow> calculate_streaks results = map signed_length (runs results)) \<and>
   calculate_streaks [] = [0] \<and>
   max_win_streak results = int (longest_run True results) \<and>
   max_lose_streak results = int (longest_run False results)"
proof (intro conjI impI)
  show "results \<noteq> [] \<Longrightarrow> calculate_streaks results = map signed_length (runs results)"
    by (rule calculate_streaks_runs)
  show "calculate_streaks [] = [0]" by (simp add: calculate_streaks_def)
  show "max_win_streak results = int (longest_run True results)"
    by (rule max_win_streak_longest)
  show "max_lose_streak results = int (longest_run False results)"
    by (rule max_lose_streak_longest)
qed

theorem calculate_streaks_runs_longest_witness:
  "[True, True, False, True, False, False, False] \<noteq> [] \<and>
   calculate_streaks [True, True, False, True, False, False, False] = [2, - 1, 1, - 3] \<and>
   map signed_length (runs [True, True, False, True, False, False, False]) = [2, - 1, 1, - 3] \<and>
   int (longest_run True [True, True, False, True, False, False, False]) = 2 \<and>
   int (longest_run False [True, True, False, True, False, False, False]) = 3"
proof -
  have e: "calculate_streaks [True, True, False, True, False, False, False] = [2, - 1, 1, - 3]"
    by code_simp
  have w: "max_win_streak [True, True, False, True, False, False, False] = 2"
    unfolding max_win_streak_def e by simp
  have l: "max_lose_streak [True, True, False, True, False, False, False] = 3"
    unfolding max_lose_streak_def e by simp
  note t = calculate_streaks_runs_longest[of "[True, True, False, True, False, False, False]"]
  have r: "map signed_length (runs [True, True, False, True, False, False, False]) = [2, - 1, 1, - 3]"
    using t e by (metis list.distinct(1))
  have lw: "int (longest_run True [True, True, False, True, False, False, False]) = 2"
    using t w by metis
  have ll: "int (longest_run False [True, True, False, True, False, False, False]) = 3"
    using t l by metis
  show ?thesis using e r lw ll by blast
qed

text \<open>
  Claim C10 as stated fails on the empty sequence: there is no run, yet one entry is
  returned.
\<close>

theorem calculate_streaks_empty:
  "calculate_streaks [] = [0] \<and> runs [] = [] \<and>
   length (calculate_streaks []) \<noteq> length (runs [])"
  by (simp add: calculate_streaks_def)

section \<open>CSV storage: proofs\<close>




text \<open>
  Claim C3, as amended. Every save operation given a non-empty list overwrites the whole
  file: afterwards the entity's CSV holds exactly the header row and one row per entity of
  the list, whatever it held before, and no other file changes. Given the empty list, every
  save operation returns at once and leaves the storage as it was.
\<close>

theorem save_overwrites_unless_empty:
  "(owners \<noteq> [] \<longrightarrow>
      save_owners owners st = st\<lparr>owners_csv := Some (owners_header # map owner_row owners)\<rparr>) \<and>
   (teams \<noteq> [] \<longrightarrow>
      save_teams teams st = st\<lparr>teams_csv := Some (teams_header # map team_row teams)\<rparr>) \<and>
   (matchups \<noteq> [] \<longrightarrow>
      save_matchups matchups st =
        st\<lparr>matchups_csv := Some (matchups_header # map matchup_row matchups)\<rparr>) \<and>
   (records \<noteq> [] \<longrightarrow>
      save_season_records records st =
        st\<lparr>season_records_csv := Some (season_records_header # map season_record_row records)\<rparr>) \<and>
   (rosters \<noteq> [] \<longrightarrow>
      save_rosters json_dumps rosters st =
        st\<lparr>rosters_csv := Some (rosters_header # map (roster_row json_dumps) rosters)\<rparr>) \<and>
   (h2h \<noteq> [] \<longrightarrow>
      save_head_to_head_records h2h st =
        st\<lparr>head_to_head_csv := Some (head_to_head_header # map head_to_head_row h2h)\<rparr>) \<and>
   save_owners [] st = st \<and> save_teams [] st = st \<and> save_matchups [] st = st \<and>
   save_season_records [] st = st \<and> save_rosters json_dumps [] st = st \<and>
   save_head_to_head_records [] st = st"
  by (simp add: save_owners_def save_teams_def save_matchups_def save_season_records_def
        save_rosters_def save_head_to_head_records_def)

theorem save_overwrites_unless_empty_witness:
  "[example_owner] \<noteq> [] \<and> [example_team] \<noteq> [] \<and> tl example_matchups \<noteq> [] \<and>
   [example_season_record] \<noteq> [] \<and> [example_roster] \<noteq> [] \<and> [even_record] \<noteq> [] \<and>
   owners_csv (save_owners [example_owner] example_storage)
     = Some [owners_header, owner_row example_owner] \<and>
   teams_csv (save_teams [example_team] example_storage)
     = Some [teams_header, team_row example_team] \<and>
   matchups_csv example_storage = Some (matchups_header # map matchup_row example_matchups) \<and>
   matchups_csv (save_matchups (tl example_matchups) example_storage)
     = Some (matchups_header # map matchup_row (tl example_matchups)) \<and>
   season_records_csv (save_season_records [example_season_record] example_storage)
     = Some [season_records_header, season_record_row example_season_record] \<and>
   rosters_csv (save_rosters (\<lambda>p. p) [example_roster] example_storage)
     = Some [rosters_header, roster_row (\<lambda>p. p) example_roster] \<and>
   head_to_head_csv (save_head_to_head_records [even_record] example_storage)
     = Some [head_to_head_header, head_to_head_row even_record] \<and>
   save_owners [] example_storage = example_storage"
proof -
  have m: "tl example_matchups \<noteq> []" by (simp add: example_matchups_def)
  have s: "matchups_csv example_storage = Some (matchups_header # map matchup_row example_matchups)"
    by (simp add: example_storage_def save_matchups_def example_matchups_def)
  note t = save_overwrites_unless_empty[of "[example_owner]" example_storage "[example_team]"
      "tl example_matchups" "[example_season_record]" "[example_roster]" "\<lambda>p. p" "[even_record]"]
  show ?thesis using t m s by simp
qed

text \<open>
  Claim C3 as stated fails for the empty list: the guard \<^verbatim>\<open>if not matchups: return\<close> leaves
  a file that holds two matchups untouched instead of reducing it to the header row.
\<close>

theorem save_empty_keeps_file:
  "matchups_csv example_storage = Some (matchups_header # map matchup_row example_matchups) \<and>
   matchups_csv (save_matchups [] example_storage)
     = Some (matchups_header # map matchup_row example_matchups) \<and>
   matchups_csv (save_matchups [] example_storage) \<noteq> Some (matchups_header # map matchup_row [])"
  by (simp add: example_storage_def save_matchups_def example_matchups_def empty_storage_def)

section \<open>Rivalry analysis: proofs\<close>


lemma round_half_even_of_int: "round_half_even (of_int k) = k"
  by (simp add: round_half_even_def)





lemma get_rivalry_analysis_Inr:
  "get_rivalry_analysis st min_games = Inr es \<Longrightarrow>
   \<exists>h2h_records owners. load_head_to_head_records st = Inr h2h_records \<and>
      load_owners st = Inr owners \<and> es = rivalries_of h2h_records owners min_games"
  by (auto simp: get_rivalry_analysis_def bind_def split: sum.splits)





section \<open>Manager DNA: proofs\<close>

text \<open>
  Claim C5. For every manager and every dataset, also one without a game of that manager,
  the Defensive axis computed by \<^verbatim>\<open>analyze_manager_dna\<close> is 5.
\<close>

theorem defensive_constant: "defensive matchups_df manager = 5"
proof (cases "np_mean (opponent_scores matchups_df manager)")
  case None
  then show ?thesis by (simp add: defensive_def)
next
  case (Some a)
  show ?thesis
  proof (cases "a > 0")
    case True
    then have "(1 - a / a) * 10 + 5 = 5" by simp
    then show ?thesis using Some True by (simp add: defensive_def)
  next
    case False
    then show ?thesis using Some by (simp add: defensive_def)
  qed
qed

section \<open>Bad beats: proofs\<close>

lemma season_avg_of_member:
  "row \<in> set pool \<Longrightarrow> season_avg_of pool (g_season row) = np_mean (season_scores pool (g_season row))"
proof -
  assume "row \<in> set pool"
  then have "g_season row \<in> set (remdups (map g_season pool))" by simp
  then have "map_of (season_averages pool) (g_season row)
               = Some (np_mean (season_scores pool (g_season row)))"
    unfolding season_averages_def by (simp add: map_of_map_restrict del: set_remdups)
  then show ?thesis by (simp add: season_avg_of_def)
qed

lemma season_scores_nonempty: "row \<in> set pool \<Longrightarrow> season_scores pool (g_season row) \<noteq> []"
  by (auto simp: season_scores_def Let_def filter_empty_conv)

lemma np_mean_member:
  "row \<in> set pool \<Longrightarrow> \<exists>avg. np_mean (season_scores pool (g_season row)) = Some avg"
  using season_scores_nonempty[of row pool] by (simp add: np_mean_def)

lemma set_row_beats:
  assumes "row \<in> set pool" "np_mean (season_scores pool (g_season row)) = Some avg"
  shows "set (row_beats pool active_managers row) =
           {e. (qualifies pool row True \<and> e = team1_beat row avg) \<or>
               (qualifies pool row False \<and> e = team2_beat row avg)}"
  using assms season_avg_of_member[OF assms(1)]
  by (auto simp: row_beats_def qualifies_def Let_def)

lemma set_all_beats:
  "set (concat (map (row_beats pool active_managers) pool)) =
     {e. \<exists>row\<in>set pool. \<exists>avg. np_mean (season_scores pool (g_season row)) = Some avg \<and>
           ((qualifies pool row True \<and> e = team1_beat row avg) \<or>
            (qualifies pool row False \<and> e = team2_beat row avg))}"
proof (rule set_eqI)
  fix e
  show "e \<in> set (concat (map (row_beats pool active_managers) pool)) \<longleftrightarrow>
        e \<in> {e. \<exists>row\<in>set pool. \<exists>avg. np_mean (season_scores pool (g_season row)) = Some avg \<and>
           ((qualifies pool row True \<and> e = team1_beat row avg) \<or>
            (qualifies pool row False \<and> e = team2_beat row avg))}"
  proof
    assume "e \<in> set (concat (map (row_beats pool active_managers) pool))"
    then obtain row where row: "row \<in> set pool" "e \<in> set (row_beats pool active_managers row)"
      by auto
    obtain avg where avg: "np_mean (season_scores pool (g_season row)) = Some avg"
      using np_mean_member[OF row(1)] by blast
    show "e \<in> {e. \<exists>row\<in>set pool. \<exists>avg. np_mean (season_scores pool (g_season row)) = Some avg \<and>
           ((qualifies pool row True \<and> e = team1_beat row avg) \<or>
            (qualifies pool row False \<and> e = team2_beat row avg))}"
      using row avg set_row_beats[OF row(1) avg] by blast
  next
    assume "e \<in> {e. \<exists>row\<in>set pool. \<exists>avg. np_mean (season_scores pool (g_season row)) = Some avg \<and>
           ((qualifies pool row True \<and> e = team1_beat row avg) \<or>
            (qualifies pool row False \<and> e = team2_beat row avg))}"
    then obtain row avg where row: "row \<in> set pool"
        "np_mean (season_scores pool (g_season row)) = Some avg"
        "(qualifies pool row True \<and> e = team1_beat row avg) \<or>
            (qualifies pool row False \<and> e = team2_beat row avg)"
      by blast
    then have "e \<in> set (row_beats pool active_managers row)"
      using set_row_beats[OF row(1,2)] by blast
    then show "e \<in> set (concat (map (row_beats pool active_managers) pool))"
      using row(1) by auto
  qed
qed

lemma all_beats_empty_iff:
  "concat (map (row_beats pool active_managers) pool) = [] \<longleftrightarrow>
     (\<forall>row\<in>set pool. \<not> qualifies pool row True \<and> \<not> qualifies pool row False)"
proof -
  have "concat (map (row_beats pool active_managers) pool) = [] \<longleftrightarrow>
          set (concat (map (row_beats pool active_managers) pool)) = {}"
    by (simp only: set_empty)
  also have "\<dots> \<longleftrightarrow> (\<forall>row\<in>set pool. \<not> qualifies pool row True \<and> \<not> qualifies pool row False)"
    unfolding set_all_beats using np_mean_member by blast
  finally show ?thesis .
qed

text \<open>
  Claim C4, as amended. The pipeline hands \<^verbatim>\<open>analyze_bad_beats\<close> the matchups between two
  active-roster managers. Among these a side of a matchup is listed as a bad beat exactly
  when its manager scored at least 20 points above the season's average and did not win,
  where the season's average is taken over that season's matchups between active-roster
  managers. When no side qualifies, sorting the empty frame raises \<^verbatim>\<open>KeyError\<close>.
\<close>

theorem bad_beats_over_active_matchups:
  assumes "pool = current_matchups matchups_df active_managers"
  shows "(pipeline_bad_beats matchups_df = Inl KeyError \<longleftrightarrow>
            (\<forall>row\<in>set pool. \<not> qualifies pool row True \<and> \<not> qualifies pool row False)) \<and>
         (\<forall>beats. pipeline_bad_beats matchups_df = Inr beats \<longrightarrow>
            set beats =
              {e. \<exists>row\<in>set pool. \<exists>avg.
                    np_mean (season_scores pool (g_season row)) = Some avg \<and>
                    ((qualifies pool row True \<and> e = team1_beat row avg) \<or>
                     (qualifies pool row False \<and> e = team2_beat row avg))})"
proof -
  let ?all = "concat (map (row_beats pool active_managers) pool)"
  have run: "pipeline_bad_beats matchups_df =
          (if ?all = [] then Inl KeyError
           else Inr (sort_key (\<lambda>e. (- bb_above_avg e, - bb_margin e)) ?all))"
    by (simp add: pipeline_bad_beats_def analyze_bad_beats_def Let_def assms)
  have a: "pipeline_bad_beats matchups_df = Inl KeyError \<longleftrightarrow> ?all = []"
    unfolding run by simp
  have b: "\<And>beats. pipeline_bad_beats matchups_df = Inr beats \<Longrightarrow> set beats = set ?all"
    unfolding run by (auto split: if_splits)
  show ?thesis using a b unfolding all_beats_empty_iff set_all_beats by blast
qed

lemma mixed_pool: "current_matchups mixed_league active_managers = [hayden_game, billy_game]"
  by (simp add: current_matchups_def mixed_league_def active_managers_def
        hayden_game_def billy_game_def former_game_def)

lemma mixed_pool_mean:
  "np_mean (season_scores [hayden_game, billy_game] 2020) = Some 105"
  by (simp add: np_mean_def season_scores_def hayden_game_def billy_game_def)

lemma mixed_pool_avg: "season_avg_of [hayden_game, billy_game] 2020 = Some 105"
  by (simp add: season_avg_of_def season_averages_def mixed_pool_mean)
     (simp add: hayden_game_def billy_game_def mixed_pool_mean[unfolded hayden_game_def billy_game_def])

lemma mixed_row_beats:
  "row_beats [hayden_game, billy_game] active_managers hayden_game = [team1_beat hayden_game 105]"
  "row_beats [hayden_game, billy_game] active_managers billy_game = []"
proof -
  have s: "g_season hayden_game = 2020" "g_season billy_game = 2020"
    by (simp_all add: hayden_game_def billy_game_def)
  show "row_beats [hayden_game, billy_game] active_managers hayden_game = [team1_beat hayden_game 105]"
    unfolding row_beats_def s mixed_pool_avg
    by (simp add: hayden_game_def active_managers_def)
  show "row_beats [hayden_game, billy_game] active_managers billy_game = []"
    unfolding row_beats_def s mixed_pool_avg
    by (simp add: billy_game_def active_managers_def)
qed

lemma mixed_league_beats:
  "pipeline_bad_beats mixed_league = Inr [team1_beat hayden_game 105]"
  by (simp add: pipeline_bad_beats_def analyze_bad_beats_def mixed_pool mixed_row_beats)

lemma mixed_league_mean: "np_mean (season_scores mixed_league 2020) = Some (610 / 3)"
  by (simp add: np_mean_def season_scores_def mixed_league_def
        hayden_game_def billy_game_def former_game_def)

theorem bad_beats_over_active_matchups_witness:
  "[hayden_game, billy_game] = current_matchups mixed_league active_managers \<and>
   pipeline_bad_beats mixed_league = Inr [team1_beat hayden_game 105] \<and>
   (\<exists>row\<in>set [hayden_game, billy_game]. \<exists>avg.
       np_mean (season_scores [hayden_game, billy_game] (g_season row)) = Some avg \<and>
       ((qualifies [hayden_game, billy_game] row True \<and>
           team1_beat hayden_game 105 = team1_beat row avg) \<or>
        (qualifies [hayden_game, billy_game] row False \<and>
           team1_beat hayden_game 105 = team2_beat row avg)))"
proof -
  have p: "[hayden_game, billy_game] = current_matchups mixed_league active_managers"
    by (simp add: mixed_pool)
  have "set [team1_beat hayden_game 105] =
          {e. \<exists>row\<in>set [hayden_game, billy_game]. \<exists>avg.
                np_mean (season_scores [hayden_game, billy_game] (g_season row)) = Some avg \<and>
                ((qualifies [hayden_game, billy_game] row True \<and> e = team1_beat row avg) \<or>
                 (qualifies [hayden_game, billy_game] row False \<and> e = team2_beat row avg))}"
    using bad_beats_over_active_matchups[OF p] mixed_league_beats by blast
  then have "team1_beat hayden_game 105 \<in>
          {e. \<exists>row\<in>set [hayden_game, billy_game]. \<exists>avg.
                np_mean (season_scores [hayden_game, billy_game] (g_season row)) = Some avg \<and>
                ((qualifies [hayden_game, billy_game] row True \<and> e = team1_beat row avg) \<or>
                 (qualifies [hayden_game, billy_game] row False \<and> e = team2_beat row avg))}"
    by (metis list.set_intros(1))
  then show ?thesis using p mixed_league_beats by blast
qed

text \<open>
  Claim C4 as stated fails: with a third game of the season between two former managers, the
  average over all games is above 203 and Hayden's 150 points are not 20 above it, yet the
  pipeline lists Hayden's game, since it averages the two games between active managers.
\<close>

theorem bad_beat_average_excludes_former_managers:
  "hayden_game \<in> set mixed_league \<and>
   pipeline_bad_beats mixed_league = Inr [team1_beat hayden_game 105] \<and>
   bb_manager (team1_beat hayden_game 105) = ''Hayden'' \<and>
   np_mean (season_scores mixed_league (g_season hayden_game)) = Some (610 / 3) \<and>
   \<not> qualifies mixed_league hayden_game True"
proof -
  have s: "g_season hayden_game = 2020" by (simp add: hayden_game_def)
  have "\<not> qualifies mixed_league hayden_game True"
    unfolding qualifies_def s mixed_league_mean by (simp add: hayden_game_def)
  then show ?thesis
    using mixed_league_beats mixed_league_mean s
    by (simp add: mixed_league_def team1_beat_def hayden_game_def)
qed

section \<open>Gini coefficient: proofs\<close>

lemma sum_index_const:
  "sum_list (map (\<lambda>i. real i * v) [1..<Suc n]) = v * real (n * (n + 1)) / 2"
proof (induction n)
  case 0
  then show ?case by simp
next
  case (Suc n)
  have "[1..<Suc (Suc n)] = [1..<Suc n] @ [Suc n]" by simp
  then have "sum_list (map (\<lambda>i. real i * v) [1..<Suc (Suc n)])
      = sum_list (map (\<lambda>i. real i * v) [1..<Suc n]) + real (Suc n) * v"
    by (simp only: map_append sum_list_append) simp
  then show ?case using Suc by (simp add: field_simps)
qed

lemma map2_replicate:
  "map2 f is (replicate (length is) v) = map (\<lambda>i. f i v) is"
  by (induction "is") simp_all

lemma calculate_gini_equal:
  assumes "vals \<noteq> []" "\<forall>x\<in>set vals. x = v" "v \<noteq> 0"
  shows "calculate_gini vals = Inr (Some 0)"
proof -
  let ?n = "length vals"
  have rep: "vals = replicate ?n v" using assms(2) by (simp add: replicate_length_same)
  have srt: "sort vals = replicate ?n v"
    using rep sorted_replicate[of ?n v] by (metis sorted_sort_id)
  have n0: "?n \<noteq> 0" using assms(1) by simp
  have w: "sum_list (map2 (\<lambda>i v. real i * v) [1..<?n + 1] (replicate ?n v))
           = v * real (?n * (?n + 1)) / 2"
  proof -
    have len: "length [1..<?n + 1] = ?n" by (simp only: length_upt add_diff_cancel_right')
    have "map2 (\<lambda>i v. real i * v) [1..<?n + 1] (replicate ?n v)
            = map (\<lambda>i. real i * v) [1..<?n + 1]"
      using map2_replicate[of "\<lambda>i v. real i * v" "[1..<?n + 1]" v] unfolding len .
    then show ?thesis using sum_index_const[of v ?n] by (simp only: Suc_eq_plus1)
  qed
  have tot: "sum_list (replicate ?n v) = real ?n * v" by (simp add: sum_list_replicate)
  have den: "real ?n * (real ?n * v) \<noteq> 0" using n0 assms(3) by simp
  have val: "2 * (v * real (?n * (?n + 1)) / 2) / (real ?n * (real ?n * v))
               - (real ?n + 1) / real ?n = 0"
    using n0 assms(3) by (simp add: field_simps)
  show ?thesis
    unfolding calculate_gini_def Let_def srt length_replicate w tot
    using n0 den val by simp
qed

text \<open>
  Claim C9, as amended. For every season in which every manager has the same win percentage
  and that percentage is not zero, the Gini coefficient computed by the rank-weighted formula
  over the season's win percentages is 0.
\<close>

theorem gini_equal_win_percentages:
  assumes "season_win_pcts season_data managers \<noteq> []"
    and "\<forall>p\<in>set (season_win_pcts season_data managers). p = v"
    and "v \<noteq> 0"
  shows "season_gini season_data managers = Some (Inr (Some 0))"
  using calculate_gini_equal[OF assms] assms(1) by (simp add: season_gini_def Let_def)

lemma split_pcts: "season_win_pcts split_season active_managers = [1 / 2, 1 / 2]"
  by (simp add: season_win_pcts_def split_season_def active_managers_def manager_games_def)

lemma tied_pcts: "season_win_pcts tied_season active_managers = [0, 0]"
  by (simp add: season_win_pcts_def tied_season_def active_managers_def manager_games_def)

theorem gini_equal_win_percentages_witness:
  "season_win_pcts split_season active_managers = [1 / 2, 1 / 2] \<and>
   season_gini split_season active_managers = Some (Inr (Some 0))"
proof -
  have a: "season_win_pcts split_season active_managers \<noteq> []" by (simp add: split_pcts)
  have b: "\<forall>p\<in>set (season_win_pcts split_season active_managers). p = 1 / 2"
    by (simp add: split_pcts)
  have c: "(1 / 2 :: real) \<noteq> 0" by simp
  show ?thesis using gini_equal_win_percentages[OF a b c] split_pcts by simp
qed

text \<open>
  Claim C9 as stated fails for a season whose games all ended without a winner: every win
  percentage is 0, the sum of the values is 0, and the numpy quotient is NaN.
\<close>

theorem gini_all_zero_season:
  "season_win_pcts tied_season active_managers = [0, 0] \<and>
   season_gini tied_season active_managers = Some (Inr None) \<and>
   season_gini tied_season active_managers \<noteq> Some (Inr (Some 0))"
  by (simp add: season_gini_def tied_pcts calculate_gini_def Let_def)

section \<open>Project cleanup: proofs\<close>

lemma removed_upd: "(removed files A)(p := None) = removed files (insert p A)"
  by (rule ext) (simp add: removed_def)

lemma sum_insert_diff:
  fixes f :: "string \<Rightarrow> nat"
  assumes "finite S" "p \<notin> A"
  shows "sum f (insert p S - A) = f p + sum f (S - insert p A)"
proof -
  have "insert p S - A = insert p (S - insert p A)" using assms(2) by auto
  moreover have "p \<notin> S - insert p A" by simp
  ultimately show ?thesis using assms(1) by simp
qed

lemma for_each_remove:
  assumes absent: "\<And>p t g. g p = None \<Longrightarrow> body p (t, g) = Inr (t, g)"
  shows "(\<And>p t g. p \<in> set ps \<Longrightarrow> g p = files p \<Longrightarrow> files p \<noteq> None \<Longrightarrow>
            body p (t, g) = Inr (t + real (bytes_at files p) / (1024 * 1024), g(p := None))) \<Longrightarrow>
   for_each body ps (t, removed files A) =
     Inr (t + real (\<Sum>p\<in>set ps - A. bytes_at files p) / (1024 * 1024), removed files (A \<union> set ps))"
proof (induction ps arbitrary: t A)
  case Nil
  then show ?case by simp
next
  case (Cons p ps)
  have nd: "\<And>p t g. p \<in> set ps \<Longrightarrow> g p = files p \<Longrightarrow> files p \<noteq> None \<Longrightarrow>
            body p (t, g) = Inr (t + real (bytes_at files p) / (1024 * 1024), g(p := None))"
    using Cons.prems by (meson list.set_intros(2))
  show ?case
  proof (cases "removed files A p")
    case None
    then have step: "body p (t, removed files A) = Inr (t, removed files A)"
      by (rule absent)
    have fp: "p \<notin> A \<Longrightarrow> files p = None" using None by (simp add: removed_def)
    have b: "p \<in> A \<or> bytes_at files p = 0" using fp by (cases "p \<in> A") (simp_all add: bytes_at_def)
    have s: "(\<Sum>q\<in>set (p # ps) - A. bytes_at files q) = (\<Sum>q\<in>set ps - A. bytes_at files q)"
    proof (cases "p \<in> A")
      case True
      then have "set (p # ps) - A = set ps - A" by auto
      then show ?thesis by simp
    next
      case False
      then have z: "bytes_at files p = 0" using b by simp
      have "(\<Sum>q\<in>insert p (set ps) - A. bytes_at files q)
              = bytes_at files p + (\<Sum>q\<in>set ps - insert p A. bytes_at files q)"
        using False by (intro sum_insert_diff) simp_all
      also have "\<dots> = (\<Sum>q\<in>set ps - insert p A. bytes_at files q)" using z by simp
      finally have L: "(\<Sum>q\<in>insert p (set ps) - A. bytes_at files q)
                         = (\<Sum>q\<in>set ps - insert p A. bytes_at files q)" .
      have R: "(\<Sum>q\<in>set ps - A. bytes_at files q) = (\<Sum>q\<in>set ps - insert p A. bytes_at files q)"
      proof (cases "p \<in> set ps")
        case True
        then have "insert p (set ps) = set ps" by (rule insert_absorb)
        then show ?thesis using L by (simp only:)
      next
        case F: False
        then have "set ps - insert p A = set ps - A" by blast
        then show ?thesis by (simp only:)
      qed
      have "set (p # ps) = insert p (set ps)" by simp
      then show ?thesis using L R by (simp only:)
    qed
    have r: "removed files (A \<union> set (p # ps)) = removed files (A \<union> set ps)"
    proof (rule ext)
      fix q show "removed files (A \<union> set (p # ps)) q = removed files (A \<union> set ps) q"
      proof (cases "q = p")
        case True
        then show ?thesis using fp by (cases "p \<in> A") (simp_all add: removed_def)
      next
        case False
        then show ?thesis by (simp add: removed_def)
      qed
    qed
    show ?thesis
      using Cons.IH[OF nd, of t A] step s r by (simp add: bind_def)
  next
    case (Some node)
    then have pA: "p \<notin> A" by (cases "p \<in> A") (simp_all add: removed_def)
    then have fp: "files p = Some node" using Some by (simp add: removed_def)
    define n where "n = bytes_at files p"
    have "removed files A p = files p" using pA by (simp add: removed_def)
    then have step: "body p (t, removed files A)
                  = Inr (t + real n / (1024 * 1024), removed files (insert p A))"
      using Cons.prems[of p "removed files A" t] fp by (simp add: removed_upd n_def)
    have s: "(\<Sum>q\<in>set (p # ps) - A. bytes_at files q)
               = n + (\<Sum>q\<in>set ps - insert p A. bytes_at files q)"
      using sum_insert_diff[of "set ps" p A "bytes_at files"] pA by (simp add: n_def)
    have r: "removed files (insert p A \<union> set ps) = removed files (A \<union> set (p # ps))" by simp
    show ?thesis
      using Cons.IH[OF nd, of "t + real n / (1024 * 1024)" "insert p A"] step
      unfolding s r by (simp add: bind_def add_divide_distrib)
  qed
qed

lemma remove_file_absent: "g p = None \<Longrightarrow> remove_file p (t, g) = Inr (t, g)"
  by (simp add: remove_file_def)

lemma remove_dir_absent: "g p = None \<Longrightarrow> remove_dir p (t, g) = Inr (t, g)"
  by (simp add: remove_dir_def)

lemma remove_file_present:
  assumes "no_dir_at files ps" "p \<in> set ps" "g p = files p" "files p \<noteq> None"
  shows "remove_file p (t, g) = Inr (t + real (bytes_at files p) / (1024 * 1024), g(p := None))"
proof -
  obtain node where node: "files p = Some node" using assms(4) by blast
  have "\<forall>sizes. files p \<noteq> Some (Dir sizes)" using assms(1,2) by (simp add: no_dir_at_def)
  then obtain n where n: "node = File n" using node by (cases node) simp_all
  show ?thesis using assms(3) node n by (simp add: remove_file_def bytes_at_def)
qed

lemma remove_dir_present:
  assumes "no_file_at files ps" "p \<in> set ps" "g p = files p" "files p \<noteq> None"
  shows "remove_dir p (t, g) = Inr (t + real (bytes_at files p) / (1024 * 1024), g(p := None))"
proof -
  obtain node where node: "files p = Some node" using assms(4) by blast
  have "\<forall>n. files p \<noteq> Some (File n)" using assms(1,2) by (simp add: no_file_at_def)
  then obtain sizes where n: "node = Dir sizes" using node by (cases node) simp_all
  show ?thesis using assms(3) node n by (simp add: remove_dir_def bytes_at_def Let_def)
qed

lemma for_each_remove_file:
  "no_dir_at files ps \<Longrightarrow>
   for_each remove_file ps (t, removed files A) =
     Inr (t + real (\<Sum>p\<in>set ps - A. bytes_at files p) / (1024 * 1024), removed files (A \<union> set ps))"
  by (rule for_each_remove[of remove_file, OF remove_file_absent remove_file_present])

lemma for_each_remove_dir:
  "no_file_at files ps \<Longrightarrow>
   for_each remove_dir ps (t, removed files A) =
     Inr (t + real (\<Sum>p\<in>set ps - A. bytes_at files p) / (1024 * 1024), removed files (A \<union> set ps))"
  by (rule for_each_remove[of remove_dir, OF remove_dir_absent remove_dir_present])

lemma removed_empty: "removed files {} = files"
  by (rule ext) (simp add: removed_def)

lemma cleanup_lists:
  assumes "no_file_at files ds" "no_dir_at files ss" "no_dir_at files fs"
  shows "bind (for_each remove_dir ds (0, files)) (\<lambda>s1.
         bind (for_each remove_file ss s1) (\<lambda>s2.
         for_each remove_file fs s2))
       = Inr (real (\<Sum>p\<in>set (ds @ ss @ fs). bytes_at files p) / (1024 * 1024),
              removed files (set (ds @ ss @ fs)))"
proof -
  have 1: "for_each remove_dir ds (0, files)
             = Inr (real (\<Sum>p\<in>set ds. bytes_at files p) / (1024 * 1024), removed files (set ds))"
    using for_each_remove_dir[OF assms(1), of 0 "{}"] by (simp add: removed_empty)
  have 2: "for_each remove_file ss (real (\<Sum>p\<in>set ds. bytes_at files p) / (1024 * 1024), removed files (set ds))
             = Inr (real (\<Sum>p\<in>set ds. bytes_at files p) / (1024 * 1024)
                    + real (\<Sum>p\<in>set ss - set ds. bytes_at files p) / (1024 * 1024),
                    removed files (set ds \<union> set ss))"
    by (rule for_each_remove_file[OF assms(2)])
  have 3: "for_each remove_file fs (real (\<Sum>p\<in>set ds. bytes_at files p) / (1024 * 1024)
                    + real (\<Sum>p\<in>set ss - set ds. bytes_at files p) / (1024 * 1024),
                    removed files (set ds \<union> set ss))
             = Inr (real (\<Sum>p\<in>set ds. bytes_at files p) / (1024 * 1024)
                    + real (\<Sum>p\<in>set ss - set ds. bytes_at files p) / (1024 * 1024)
                    + real (\<Sum>p\<in>set fs - (set ds \<union> set ss). bytes_at files p) / (1024 * 1024),
                    removed files (set ds \<union> set ss \<union> set fs))"
    by (rule for_each_remove_file[OF assms(3)])
  have u1: "(\<Sum>p\<in>set ds \<union> set ss. bytes_at files p)
             = (\<Sum>p\<in>set ds. bytes_at files p) + (\<Sum>p\<in>set ss - set ds. bytes_at files p)"
    by (subst sum.union_disjoint[symmetric]) (auto intro: arg_cong[where f = "sum (bytes_at files)"])
  have u2: "(\<Sum>p\<in>set ds \<union> set ss \<union> set fs. bytes_at files p)
             = (\<Sum>p\<in>set ds \<union> set ss. bytes_at files p)
               + (\<Sum>p\<in>set fs - (set ds \<union> set ss). bytes_at files p)"
    by (subst sum.union_disjoint[symmetric]) (auto intro: arg_cong[where f = "sum (bytes_at files)"])
  have s: "set (ds @ ss @ fs) = set ds \<union> set ss \<union> set fs" by auto
  show ?thesis
    unfolding s u2 u1 by (simp only: bind_def 1 2 3 sum.case of_nat_add add_divide_distrib)
qed

text \<open>
  Claim C6, as amended. When no listed directory path is a regular file and no listed file
  path is a directory, the cleanup returns, and its running total is the number of bytes of
  all deleted directories and files divided by \<open>1024 * 1024\<close>: a directory adds its size in
  megabytes, and a file adds its size in kilobytes divided by 1024, which is megabytes too.
  A path listed twice is counted once.
\<close>

theorem cleanup_total_in_megabytes:
  assumes "no_file_at files redundant_dirs"
    and "no_dir_at files redundant_scripts" and "no_dir_at files redundant_files"
  shows "cleanup_project files =
           Inr (real (\<Sum>p\<in>set all_redundant. bytes_at files p) / (1024 * 1024),
                removed files (set all_redundant))"
  unfolding cleanup_project_def all_redundant_def by (rule cleanup_lists[OF assms])

lemma bytes_at_example_tree:
  "bytes_at example_tree p =
     (if p = ''data/season_2019'' then 3145728 else 0)
     + (if p = ''scripts/check_2019_data.py'' then 524288 else 0)"
  by (simp add: bytes_at_def example_tree_def)

lemma bytes_at_one_script:
  "bytes_at one_script p = (if p = ''scripts/extract_real_data.py'' then 1048576 else 0)"
  by (simp add: bytes_at_def one_script_def)

lemma in_dirs: "''data/season_2019'' \<in> set all_redundant"
  by (simp add: all_redundant_def redundant_dirs_def)

lemma in_scripts: "''scripts/check_2019_data.py'' \<in> set all_redundant"
  by (simp add: all_redundant_def redundant_scripts_def)

lemma in_scripts2: "''scripts/extract_real_data.py'' \<in> set (redundant_scripts @ redundant_files)"
  by (simp add: redundant_scripts_def)

lemma in_scripts3: "''scripts/extract_real_data.py'' \<in> set (redundant_dirs @ redundant_scripts @ redundant_files)"
  by (simp add: redundant_scripts_def)

theorem cleanup_total_in_megabytes_witness:
  "no_file_at example_tree redundant_dirs \<and>
   no_dir_at example_tree redundant_scripts \<and> no_dir_at example_tree redundant_files \<and>
   cleanup_project example_tree = Inr (7 / 2, removed example_tree (set all_redundant))"
proof -
  have a: "no_file_at example_tree redundant_dirs"
    by (simp add: no_file_at_def example_tree_def redundant_dirs_def)
  have b: "no_dir_at example_tree redundant_scripts"
    by (simp add: no_dir_at_def example_tree_def redundant_scripts_def)
  have c: "no_dir_at example_tree redundant_files"
    by (simp add: no_dir_at_def example_tree_def redundant_files_def)
  have s: "(\<Sum>p\<in>set all_redundant. bytes_at example_tree p) = 3145728 + 524288"
    unfolding bytes_at_example_tree using in_dirs in_scripts by (simp add: sum.distrib)
  show ?thesis using cleanup_total_in_megabytes[OF a b c] a b c unfolding s by simp
qed

text \<open>
  Claim C6 as stated fails: deleting one script of 1048576 bytes adds 1 to the total, not the
  1024 that its size in kilobytes would add.
\<close>

theorem cleanup_file_counted_in_megabytes:
  "cleanup_project one_script
     = Inr (1, removed one_script (set (redundant_dirs @ redundant_scripts @ redundant_files))) \<and>
   claimed_space_saved one_script = 1024"
proof -
  have a: "no_file_at one_script redundant_dirs"
    by (simp add: no_file_at_def one_script_def redundant_dirs_def)
  have b: "no_dir_at one_script redundant_scripts" "no_dir_at one_script redundant_files"
    by (simp_all add: no_dir_at_def one_script_def)
  have s: "(\<Sum>p\<in>set (redundant_dirs @ redundant_scripts @ redundant_files). bytes_at one_script p)
             = 1048576"
    unfolding bytes_at_one_script using in_scripts3 by simp
  have run: "cleanup_project one_script
     = Inr (1, removed one_script (set (redundant_dirs @ redundant_scripts @ redundant_files)))"
    unfolding cleanup_project_def cleanup_lists[OF a b] s by simp
  have d: "(\<Sum>p\<in>set redundant_dirs. real (bytes_at one_script p) / (1024 * 1024)) = 0"
    unfolding bytes_at_one_script by (simp add: redundant_dirs_def)
  have "(\<Sum>p\<in>set (redundant_scripts @ redundant_files). real (bytes_at one_script p) / 1024)
          = (\<Sum>p\<in>set (redundant_scripts @ redundant_files).
               if p = ''scripts/extract_real_data.py'' then 1024 else 0)"
    unfolding bytes_at_one_script by (intro sum.cong) simp_all
  also have "\<dots> = 1024" using in_scripts2 by simp
  finally have f: "(\<Sum>p\<in>set (redundant_scripts @ redundant_files). real (bytes_at one_script p) / 1024) = 1024" .
  have "claimed_space_saved one_script = 1024"
    unfolding claimed_space_saved_def d f by simp
  then show ?thesis using run by blast
qed

end
